theory Spec2Isabelle
  imports Main
begin

section \<open>JavaScript values, objects and errors\<close>

text \<open>
  The provider (src/index.js) works on plain JavaScript data: the configuration module
  that \<open>require\<close> returns, the launch options it builds from it, and four objects used
  as maps from the session id to a handle. Objects and arrays are shared by reference
  (the module cache hands out the same configuration object on every \<open>require\<close>, and
  the object spread copies references, not arrays), so they live in an explicit heap and
  a value only holds their address.

  The values are \<open>undefined\<close>, \<open>null\<close>, booleans, numbers (the integers: timeouts and
  pixel sizes), strings, references to a heap cell, and the HAR recorder objects that
  \<open>new PuppeteerHar(page)\<close> creates (the page it wraps may be \<open>undefined\<close>).
\<close>

datatype val =
    VUndefined
  | VNull
  | VBool bool
  | VNum int
  | VStr string
  | VRef nat
  | VRecorder "nat option"

text \<open>
  A heap cell is an object: its named properties, and for an array also its elements.
\<close>

datatype cell = Cell (elems: "val list option") (props: "string \<rightharpoonup> val")

text \<open>A thrown \<open>Error\<close>: its \<open>name\<close> and its \<open>message\<close>.\<close>

datatype jserr = JsError (err_name: string) (err_message: string)

definition TypeError :: "string \<Rightarrow> jserr" where
  "TypeError msg = JsError ''TypeError'' msg"

text \<open>\<open>Error.prototype.toString\<close>, which \<open>'...' + err\<close> calls.\<close>

definition toString :: "jserr \<Rightarrow> string" where
  "toString e =
     (if err_name e = [] then err_message e
      else if err_message e = [] then err_name e
      else err_name e @ '': '' @ err_message e)"

text \<open>What \<open>if (v)\<close> and \<open>!v\<close> test.\<close>

fun truthy :: "val \<Rightarrow> bool" where
  "truthy VUndefined = False"
| "truthy VNull = False"
| "truthy (VBool b) = b"
| "truthy (VNum n) = (n \<noteq> 0)"
| "truthy (VStr s) = (s \<noteq> [])"
| "truthy (VRef a) = True"
| "truthy (VRecorder p) = True"

text \<open>\<open>v === null || v === undefined\<close>\<close>

fun nullish :: "val \<Rightarrow> bool" where
  "nullish VUndefined = True"
| "nullish VNull = True"
| "nullish v = False"

subsection \<open>Property keys of array elements\<close>

definition digit :: "nat \<Rightarrow> char" where
  "digit d = char_of (48 + d)"

fun dec :: "nat \<Rightarrow> string" where
  "dec n = (if n < 10 then [digit n] else dec (n div 10) @ [digit (n mod 10)])"

declare dec.simps [simp del]

text \<open>The own properties \<open>"0"\<close>, \<open>"1"\<close>, ... of an array or a string.\<close>

definition index_props :: "val list \<Rightarrow> (string \<rightharpoonup> val)" where
  "index_props xs = map_of (zip (map dec [0..<length xs]) xs)"

definition chars :: "string \<Rightarrow> val list" where
  "chars s = map (\<lambda>c. VStr [c]) s"

subsection \<open>Reading the heap\<close>

definition cell_at :: "cell list \<Rightarrow> nat \<Rightarrow> cell option" where
  "cell_at hp a = (if a < length hp then Some (hp ! a) else None)"

text \<open>
  The own enumerable properties that an object spread \<open>{...v}\<close> copies. Spreading
  \<open>undefined\<close>, \<open>null\<close>, a boolean or a number copies nothing; a recorder never is spread.
\<close>

fun own_props :: "cell list \<Rightarrow> val \<Rightarrow> (string \<rightharpoonup> val)" where
  "own_props hp (VRef a) =
     (case cell_at hp a of
        None \<Rightarrow> Map.empty
      | Some c \<Rightarrow> (case elems c of None \<Rightarrow> props c | Some xs \<Rightarrow> index_props xs ++ props c))"
| "own_props hp (VStr s) = index_props (chars s)"
| "own_props hp v = Map.empty"

text \<open>
  \<open>v.k\<close>. Reading a property of \<open>undefined\<close> or \<open>null\<close> throws a TypeError. A property
  that is not there reads as \<open>undefined\<close> (none of the keys the provider reads is on a
  prototype).
\<close>

definition or_undefined :: "val option \<Rightarrow> val" where
  "or_undefined ov = (case ov of None \<Rightarrow> VUndefined | Some v \<Rightarrow> v)"

fun get_prop :: "cell list \<Rightarrow> val \<Rightarrow> string \<Rightarrow> jserr + val" where
  "get_prop hp VUndefined k =
     Inl (TypeError (''Cannot read properties of undefined (reading '' @ k @ '')''))"
| "get_prop hp VNull k =
     Inl (TypeError (''Cannot read properties of null (reading '' @ k @ '')''))"
| "get_prop hp (VRef a) k =
     (case cell_at hp a of
        None \<Rightarrow> Inl (TypeError ''no such object'')
      | Some c \<Rightarrow>
          (case elems c of
             None \<Rightarrow> Inr (or_undefined (props c k))
           | Some xs \<Rightarrow>
               if k = ''length'' then Inr (VNum (int (length xs)))
               else Inr (or_undefined ((index_props xs ++ props c) k))))"
| "get_prop hp (VStr s) k =
     (if k = ''length'' then Inr (VNum (int (length s)))
      else Inr (or_undefined (index_props (chars s) k)))"
| "get_prop hp v k = Inr VUndefined"

text \<open>
  The values an array spread \<open>[...v]\<close> yields: the elements of an array, the characters
  of a string; anything else is not iterable.
\<close>

fun iterate :: "cell list \<Rightarrow> val \<Rightarrow> jserr + val list" where
  "iterate hp (VRef a) =
     (case cell_at hp a of
        None \<Rightarrow> Inl (TypeError ''no such object'')
      | Some c \<Rightarrow>
          (case elems c of
             None \<Rightarrow> Inl (TypeError ''object is not iterable'')
           | Some xs \<Rightarrow> Inr xs))"
| "iterate hp (VStr s) = Inr (chars s)"
| "iterate hp v = Inl (TypeError ''value is not iterable'')"

subsection \<open>Writing the heap\<close>

text \<open>
  \<open>v.k = x\<close>. The module is an ES module, hence strict code: creating a property on a
  primitive throws a TypeError, as it does on \<open>undefined\<close> and \<open>null\<close>.
\<close>

fun set_prop :: "cell list \<Rightarrow> val \<Rightarrow> string \<Rightarrow> val \<Rightarrow> jserr + cell list" where
  "set_prop hp (VRef a) k x =
     (case cell_at hp a of
        None \<Rightarrow> Inl (TypeError ''no such object'')
      | Some c \<Rightarrow> Inr (hp[a := Cell (elems c) ((props c)(k \<mapsto> x))]))"
| "set_prop hp v k x =
     Inl (TypeError (''Cannot create property '' @ k))"

text \<open>
  \<open>v.push(x)\<close>: appends to an array; on anything else \<open>push\<close> is not a function (or \<open>v\<close>
  is \<open>undefined\<close> or \<open>null\<close>), a TypeError.
\<close>

fun push :: "cell list \<Rightarrow> val \<Rightarrow> val \<Rightarrow> jserr + cell list" where
  "push hp (VRef a) x =
     (case cell_at hp a of
        None \<Rightarrow> Inl (TypeError ''no such object'')
      | Some c \<Rightarrow>
          (case elems c of
             None \<Rightarrow> Inl (TypeError ''push is not a function'')
           | Some xs \<Rightarrow> Inr (hp[a := Cell (Some (xs @ [x])) (props c)])))"
| "push hp v x = Inl (TypeError ''push is not a function'')"

text \<open>A new object or array is a new cell at the end of the heap.\<close>

definition alloc :: "cell list \<Rightarrow> cell \<Rightarrow> val \<times> cell list" where
  "alloc hp c = (VRef (length hp), hp @ [c])"

definition new_object :: "(string \<rightharpoonup> val) \<Rightarrow> cell" where
  "new_object ps = Cell None ps"

definition new_array :: "val list \<Rightarrow> cell" where
  "new_array xs = Cell (Some xs) Map.empty"

section \<open>combineLaunchOptions\<close>

text \<open>
  \<^verbatim>\<open>
  function combineLaunchOptions(defaultLaunchOptions, launchOptionsFromConfig) {
    const launchOptions = { ...defaultLaunchOptions, ...launchOptionsFromConfig };
    if (launchOptionsFromConfig.args === null || launchOptionsFromConfig.args === undefined) {
      launchOptions.args = defaultLaunchOptions.args;
    } else {
      const chromiumArgs = [...defaultLaunchOptions.args, ...launchOptionsFromConfig.args];
      launchOptions.args = chromiumArgs;
    }
    return launchOptions;
  }
  \<close>
  The result is the address of the new object and the heap that holds it; a throw leaves
  the heap as it was, apart from cells nothing refers to.
\<close>

definition combineLaunchOptions :: "cell list \<Rightarrow> val \<Rightarrow> val \<Rightarrow> jserr + (val \<times> cell list)" where
  "combineLaunchOptions hp defaultLaunchOptions launchOptionsFromConfig =
     (case alloc hp (new_object (own_props hp defaultLaunchOptions ++
                                 own_props hp launchOptionsFromConfig)) of
        (launchOptions, hp1) \<Rightarrow>
     (case get_prop hp1 launchOptionsFromConfig ''args'' of
        Inl e \<Rightarrow> Inl e
      | Inr cargs \<Rightarrow>
          if nullish cargs then
            (case get_prop hp1 defaultLaunchOptions ''args'' of
               Inl e \<Rightarrow> Inl e
             | Inr dargs \<Rightarrow>
                 (case set_prop hp1 launchOptions ''args'' dargs of
                    Inl e \<Rightarrow> Inl e
                  | Inr hp2 \<Rightarrow> Inr (launchOptions, hp2)))
          else
            (case get_prop hp1 defaultLaunchOptions ''args'' of
               Inl e \<Rightarrow> Inl e
             | Inr dargs \<Rightarrow>
            (case iterate hp1 dargs of
               Inl e \<Rightarrow> Inl e
             | Inr ds \<Rightarrow>
            (case get_prop hp1 launchOptionsFromConfig ''args'' of
               Inl e \<Rightarrow> Inl e
             | Inr cargs' \<Rightarrow>
            (case iterate hp1 cargs' of
               Inl e \<Rightarrow> Inl e
             | Inr cs \<Rightarrow>
            (case alloc hp1 (new_array (ds @ cs)) of
               (chromiumArgs, hp2) \<Rightarrow>
            (case set_prop hp2 launchOptions ''args'' chromiumArgs of
               Inl e \<Rightarrow> Inl e
             | Inr hp3 \<Rightarrow> Inr (launchOptions, hp3)))))))))"


section \<open>String.prototype.replace with a string pattern\<close>

text \<open>
  \<open>str.replace(pat, rep)\<close> with strings \<open>pat\<close> and \<open>rep\<close> replaces the first occurrence of
  \<open>pat\<close> only, and expands the replacement patterns of \<open>rep\<close>: \<open>$$\<close> is a dollar sign,
  \<open>$&\<close> the matched text, \<open>$`\<close> the text before the match, \<open>$'\<close> the text after it
  (there are no capture groups, so \<open>$1\<close> and \<open>$<name>\<close> stay as they are).
\<close>

fun find_first :: "string \<Rightarrow> string \<Rightarrow> (string \<times> string) option" where
  "find_first pat [] = (if pat = [] then Some ([], []) else None)"
| "find_first pat (c # cs) =
     (if take (length pat) (c # cs) = pat then Some ([], drop (length pat) (c # cs))
      else (case find_first pat cs of
              None \<Rightarrow> None
            | Some (pre, post) \<Rightarrow> Some (c # pre, post)))"

fun substitution :: "string \<Rightarrow> string \<Rightarrow> string \<Rightarrow> string \<Rightarrow> string" where
  "substitution matched pre post (c # d # r) =
     (if c = CHR ''$'' \<and> d = CHR ''$'' then CHR ''$'' # substitution matched pre post r
      else if c = CHR ''$'' \<and> d = CHR ''&'' then matched @ substitution matched pre post r
      else if c = CHR ''$'' \<and> d = CHR 0x60 then pre @ substitution matched pre post r
      else if c = CHR ''$'' \<and> d = CHR 0x27 then post @ substitution matched pre post r
      else c # substitution matched pre post (d # r))"
| "substitution matched pre post r = r"

definition js_replace :: "string \<Rightarrow> string \<Rightarrow> string \<Rightarrow> string" where
  "js_replace str pat rep =
     (case find_first pat str of
        None \<Rightarrow> str
      | Some (pre, post) \<Rightarrow> pre @ substitution pat pre post rep @ post)"

section \<open>The provider's state and its collaborators\<close>

record screen_size =
  width :: int
  height :: int

text \<open>
  The calls the provider makes on its collaborators (the module loader, puppeteer, the
  HAR recorder, the host's plugin methods, the window tools, the file system), in the
  order they are issued. \<open>Launch\<close> carries the launch options and the heap they are read
  in. A page argument is \<open>pages[0]\<close>, a browser or a page is its handle.
\<close>

datatype call =
    Require string
  | Launch val "cell list"
  | BrowserPages nat
  | HarStart "nat option"
  | HarStop "nat option"
  | Goto nat string
  | WaitForConnectionReady string
  | Maximize string
  | RunInitScript string
  | PageClose nat
  | BrowserClose nat
  | SetViewport nat int int
  | Mkdir string
  | Screenshot nat string bool
  | ResolveContextTestRun
  | Hover nat string
  | ReadFile string
  | WriteFile string string

text \<open>
  The provider object: the heap, the four maps \<open>browsers\<close>, \<open>pages\<close>, \<open>har\<close> and
  \<open>screenSizes\<close> keyed by the session id, and the calls issued so far. \<open>pages[id]\<close> may
  hold \<open>undefined\<close> (\<open>Some None\<close>), when the browser had no page.
\<close>

record provider =
  heap :: "cell list"
  browsers :: "string \<rightharpoonup> nat"
  pages :: "string \<rightharpoonup> nat option"
  har :: "string \<rightharpoonup> val"
  screenSizes :: "string \<rightharpoonup> screen_size"
  calls :: "call list"

text \<open>
  The collaborators. A call returns or throws; which, and what, may depend on all calls
  issued so far (the last of them is the call itself). \<open>require\<close> caches modules, so it
  answers by the path alone, and a module's objects are in the heap. A HAR log is taken
  as its \<open>JSON.stringify\<close> text; \<open>template_path\<close> is \<open>resolve(__dirname, 'har.html')\<close>.
\<close>

record host =
  resolve :: "string \<Rightarrow> string"
  dirname :: "string \<Rightarrow> string"
  template_path :: string
  require_r :: "string \<Rightarrow> jserr + val"
  launch_r :: "call list \<Rightarrow> jserr + nat"
  pages_r :: "call list \<Rightarrow> jserr + nat list"
  void_r :: "call list \<Rightarrow> jserr option"
  screen_r :: "call list \<Rightarrow> jserr + screen_size"
  text_r :: "call list \<Rightarrow> jserr + string"

subsection \<open>Sequencing: a call returns a value or throws, and changes the state\<close>

type_synonym 'a js = "provider \<Rightarrow> (jserr + 'a) \<times> provider"

definition ret :: "'a \<Rightarrow> 'a js" where
  "ret x = (\<lambda>s. (Inr x, s))"

definition throw :: "jserr \<Rightarrow> 'a js" where
  "throw e = (\<lambda>s. (Inl e, s))"

definition bnd :: "'a js \<Rightarrow> ('a \<Rightarrow> 'b js) \<Rightarrow> 'b js" where
  "bnd m f = (\<lambda>s. case m s of (Inl e, s') \<Rightarrow> (Inl e, s') | (Inr x, s') \<Rightarrow> f x s')"

definition catch :: "'a js \<Rightarrow> (jserr \<Rightarrow> 'a js) \<Rightarrow> 'a js" where
  "catch m handler = (\<lambda>s. case m s of (Inl e, s') \<Rightarrow> handler e s' | (Inr x, s') \<Rightarrow> (Inr x, s'))"

definition gets :: "(provider \<Rightarrow> 'a) \<Rightarrow> 'a js" where
  "gets f = (\<lambda>s. (Inr (f s), s))"

definition modify :: "(provider \<Rightarrow> provider) \<Rightarrow> unit js" where
  "modify f = (\<lambda>s. (Inr (), f s))"

subsection \<open>Heap operations in sequence\<close>

definition newCell :: "cell \<Rightarrow> val js" where
  "newCell c = (\<lambda>s. case alloc (heap s) c of (v, hp) \<Rightarrow> (Inr v, s\<lparr>heap := hp\<rparr>))"

definition getProp :: "val \<Rightarrow> string \<Rightarrow> val js" where
  "getProp v k = (\<lambda>s. (get_prop (heap s) v k, s))"

definition setProp :: "val \<Rightarrow> string \<Rightarrow> val \<Rightarrow> unit js" where
  "setProp v k x =
     (\<lambda>s. case set_prop (heap s) v k x of
             Inl e \<Rightarrow> (Inl e, s)
           | Inr hp \<Rightarrow> (Inr (), s\<lparr>heap := hp\<rparr>))"

definition pushTo :: "val \<Rightarrow> val \<Rightarrow> unit js" where
  "pushTo v x =
     (\<lambda>s. case push (heap s) v x of
             Inl e \<Rightarrow> (Inl e, s)
           | Inr hp \<Rightarrow> (Inr (), s\<lparr>heap := hp\<rparr>))"

definition combine :: "val \<Rightarrow> val \<Rightarrow> val js" where
  "combine d c =
     (\<lambda>s. case combineLaunchOptions (heap s) d c of
             Inl e \<Rightarrow> (Inl e, s)
           | Inr (v, hp) \<Rightarrow> (Inr v, s\<lparr>heap := hp\<rparr>))"

subsection \<open>Calls on the collaborators\<close>

definition issue :: "call \<Rightarrow> provider \<Rightarrow> provider" where
  "issue c s = s\<lparr>calls := calls s @ [c]\<rparr>"

definition void_call :: "host \<Rightarrow> call \<Rightarrow> unit js" where
  "void_call h c =
     (\<lambda>s. case void_r h (calls (issue c s)) of
             Some e \<Rightarrow> (Inl e, issue c s)
           | None \<Rightarrow> (Inr (), issue c s))"

definition text_call :: "host \<Rightarrow> call \<Rightarrow> string js" where
  "text_call h c = (\<lambda>s. (text_r h (calls (issue c s)), issue c s))"

definition require :: "host \<Rightarrow> string \<Rightarrow> val js" where
  "require h path = (\<lambda>s. (require_r h path, issue (Require path) s))"

definition launch :: "host \<Rightarrow> val \<Rightarrow> nat js" where
  "launch h launchOptions =
     (\<lambda>s. (launch_r h (calls (issue (Launch launchOptions (heap s)) s)),
           issue (Launch launchOptions (heap s)) s))"

definition browser_pages :: "host \<Rightarrow> nat \<Rightarrow> nat list js" where
  "browser_pages h b =
     (\<lambda>s. (pages_r h (calls (issue (BrowserPages b) s)), issue (BrowserPages b) s))"

definition runInitScript :: "host \<Rightarrow> string \<Rightarrow> screen_size js" where
  "runInitScript h ident =
     (\<lambda>s. (screen_r h (calls (issue (RunInitScript ident) s)), issue (RunInitScript ident) s))"

definition waitForConnectionReady :: "host \<Rightarrow> string \<Rightarrow> unit js" where
  "waitForConnectionReady h ident = void_call h (WaitForConnectionReady ident)"

text \<open>
  A method call on \<open>pages[0]\<close>, \<open>this.pages[id]\<close> or \<open>this.browsers[id]\<close>, which may be
  \<open>undefined\<close>.
\<close>

definition on_handle :: "host \<Rightarrow> nat option \<Rightarrow> (nat \<Rightarrow> call) \<Rightarrow> unit js" where
  "on_handle h page c =
     (case page of
        None \<Rightarrow> throw (TypeError ''Cannot read properties of undefined'')
      | Some p \<Rightarrow> void_call h (c p))"

text \<open>
  \<open>provider.start()\<close> and \<open>provider.stop()\<close> on whatever the \<open>provider\<close> property holds.
\<close>

definition on_recorder :: "val \<Rightarrow> (nat option \<Rightarrow> 'a js) \<Rightarrow> 'a js" where
  "on_recorder v m =
     (case v of
        VRecorder page \<Rightarrow> m page
      | VUndefined \<Rightarrow> throw (TypeError ''Cannot read properties of undefined'')
      | VNull \<Rightarrow> throw (TypeError ''Cannot read properties of null'')
      | _ \<Rightarrow> throw (TypeError ''not a function''))"


section \<open>The provider's methods\<close>

subsection \<open>Lookups in the session maps\<close>

text \<open>\<open>this.har[id]\<close>, \<open>this.pages[id]\<close>: a missing key reads as \<open>undefined\<close>.\<close>

definition harOf :: "string \<Rightarrow> val js" where
  "harOf ident = gets (\<lambda>s. or_undefined (har s ident))"

definition harProp :: "string \<Rightarrow> string \<Rightarrow> val js" where
  "harProp ident k = bnd (harOf ident) (\<lambda>hv. getProp hv k)"

definition pageOf :: "string \<Rightarrow> nat option js" where
  "pageOf ident = gets (\<lambda>s. case pages s ident of None \<Rightarrow> None | Some p \<Rightarrow> p)"

subsection \<open>openBrowser\<close>

text \<open>
  The object literal \<open>defaultLaunchOptions\<close>, built anew by every call of \<open>openBrowser\<close>.
\<close>

definition defaultLaunchOptions :: "val js" where
  "defaultLaunchOptions =
     bnd (newCell (new_array [VStr ''--disable-infobars''])) (\<lambda>dargs.
     bnd (newCell (new_array [])) (\<lambda>dignore.
     newCell (new_object
       [''args'' \<mapsto> dargs,
        ''defaultViewport'' \<mapsto> VNull,
        ''headless'' \<mapsto> VBool False,
        ''ignoreDefaultArgs'' \<mapsto> dignore,
        ''timeout'' \<mapsto> VNum 30000])))"

text \<open>
  The body of the \<open>try\<close> block (lines 79 to 113): it yields \<open>launchOptions\<close>, \<open>appMode\<close>
  and \<open>har\<close>.
\<close>

definition readConfig :: "host \<Rightarrow> string \<Rightarrow> string \<Rightarrow> val \<Rightarrow> (val \<times> val \<times> val) js" where
  "readConfig h pageUrl config dflt =
     bnd (require h (resolve h (if config = [] then ''.'' else config))) (\<lambda>module.
     bnd (getProp module ''config'') (\<lambda>browserConfiguration.
     bnd (getProp browserConfiguration ''chromium'') (\<lambda>launchOptionsFromConfig.
     bnd (combine dflt launchOptionsFromConfig) (\<lambda>launchOptions.
     bnd (getProp browserConfiguration ''appMode'') (\<lambda>am.
     bnd (ret (if nullish am then VBool False else am)) (\<lambda>appMode.
     bnd (getProp browserConfiguration ''disableInfoBars'') (\<lambda>dib.
     bnd (ret (if nullish dib then VBool False else dib)) (\<lambda>disableInfoBars.
     bnd (if truthy appMode then
            bnd (getProp launchOptions ''args'') (\<lambda>a.
            bnd (pushTo a (VStr (''--app='' @ pageUrl))) (\<lambda>_.
            setProp launchOptions ''headless'' (VBool False)))
          else ret ()) (\<lambda>_.
     bnd (if truthy disableInfoBars then
            bnd (getProp launchOptions ''args'') (\<lambda>a.
            bnd (pushTo a (VStr ''--no-default-browser-check'')) (\<lambda>_.
            bnd (getProp launchOptions ''ignoreDefaultArgs'') (\<lambda>i.
            pushTo i (VStr ''--enable-automation''))))
          else ret ()) (\<lambda>_.
     bnd (getProp browserConfiguration ''har'') (\<lambda>hv.
     ret (launchOptions, appMode, if truthy hv then hv else VBool False))))))))))))"

definition config_error :: "jserr \<Rightarrow> jserr" where
  "config_error err =
     JsError ''Error'' (''Error reading the launch options from the config file!'' @ toString err)"

text \<open>Lines 127 to 131: attach a HAR recorder to the page and start it.\<close>

definition captureHar :: "host \<Rightarrow> string \<Rightarrow> val \<Rightarrow> nat option \<Rightarrow> unit js" where
  "captureHar h ident hv page =
     bnd (modify (\<lambda>s. s\<lparr>har := (har s)(ident \<mapsto> hv)\<rparr>)) (\<lambda>_.
     bnd (harOf ident) (\<lambda>target.
     bnd (setProp target ''provider'' (VRecorder page)) (\<lambda>_.
     bnd (harProp ident ''provider'') (\<lambda>recorder.
     on_recorder recorder (\<lambda>p. void_call h (HarStart p))))))"

definition maximizeWindow :: "host \<Rightarrow> string \<Rightarrow> unit js" where
  "maximizeWindow h ident = void_call h (Maximize ident)"

text \<open>
  Lines 59 to 120: the browser tracked for the session, or else a browser launched with
  the options read from the configuration. It yields \<open>browser\<close>, \<open>launchOptions\<close>,
  \<open>appMode\<close> and \<open>har\<close>.
\<close>

definition launchBrowser :: "host \<Rightarrow> string \<Rightarrow> string \<Rightarrow> string \<Rightarrow> (nat \<times> val \<times> val \<times> val) js" where
  "launchBrowser h ident pageUrl config =
     bnd defaultLaunchOptions (\<lambda>dflt.
     bnd (newCell (new_object Map.empty)) (\<lambda>noOptions.
     bnd (gets (\<lambda>s. browsers s ident)) (\<lambda>tracked.
     case tracked of
       Some b \<Rightarrow> ret (b, noOptions, VBool False, VBool False)
     | None \<Rightarrow>
         bnd (if config = [] then ret (dflt, VBool False, VBool False)
              else catch (readConfig h pageUrl config dflt)
                         (\<lambda>err. throw (config_error err)))
             (\<lambda>(launchOptions, appMode, hv).
         bnd (launch h launchOptions) (\<lambda>b.
         ret (b, launchOptions, appMode, hv))))))"

text \<open>Lines 122 to 152: the rest of \<open>openBrowser\<close>, on the browser so obtained.\<close>

definition preparePage :: "host \<Rightarrow> string \<Rightarrow> string \<Rightarrow> nat \<Rightarrow> val \<Rightarrow> val \<Rightarrow> val \<Rightarrow> unit js" where
  "preparePage h ident pageUrl browser launchOptions appMode hv =
     bnd (browser_pages h browser) (\<lambda>ps.
     bnd (ret (case ps of [] \<Rightarrow> None | p # _ \<Rightarrow> Some p)) (\<lambda>page.
     bnd (if truthy hv then captureHar h ident hv page else ret ()) (\<lambda>_.
     bnd (if \<not> truthy appMode then on_handle h page (\<lambda>p. Goto p pageUrl) else ret ()) (\<lambda>_.
     bnd (waitForConnectionReady h ident) (\<lambda>_.
     bnd (getProp launchOptions ''headless'') (\<lambda>headless.
     bnd (if \<not> truthy headless then maximizeWindow h ident else ret ()) (\<lambda>_.
     bnd (runInitScript h ident) (\<lambda>size.
     bnd (modify (\<lambda>s. s\<lparr>screenSizes := (screenSizes s)(ident \<mapsto> size)\<rparr>)) (\<lambda>_.
     bnd (modify (\<lambda>s. s\<lparr>browsers := (browsers s)(ident \<mapsto> browser)\<rparr>)) (\<lambda>_.
     modify (\<lambda>s. s\<lparr>pages := (pages s)(ident \<mapsto> page)\<rparr>)))))))))))"

definition openBrowser :: "host \<Rightarrow> string \<Rightarrow> string \<Rightarrow> string \<Rightarrow> unit js" where
  "openBrowser h ident pageUrl config =
     bnd (launchBrowser h ident pageUrl config) (\<lambda>(browser, launchOptions, appMode, hv).
     preparePage h ident pageUrl browser launchOptions appMode hv)"

subsection \<open>closeBrowser\<close>

text \<open>
  \<open>fs.writeFileSync(resolve(process.cwd(), outputFile), ...)\<close>: \<open>resolve\<close> throws a
  TypeError on a path that is not a string.
\<close>

definition write_to :: "host \<Rightarrow> val \<Rightarrow> string \<Rightarrow> unit js" where
  "write_to h outputFile content =
     (case outputFile of
        VStr f \<Rightarrow> void_call h (WriteFile (resolve h f) content)
      | _ \<Rightarrow> throw (TypeError ''The path argument must be of type string''))"

definition writeHar :: "host \<Rightarrow> string \<Rightarrow> val \<Rightarrow> unit js" where
  "writeHar h harLogData outputFile = write_to h outputFile harLogData"

definition writeHarHtml :: "host \<Rightarrow> string \<Rightarrow> val \<Rightarrow> unit js" where
  "writeHarHtml h harLogData outputFile =
     bnd (text_call h (ReadFile (template_path h))) (\<lambda>html.
     write_to h outputFile (js_replace html ''{harLogData}'' harLogData))"

definition closeBrowser :: "host \<Rightarrow> string \<Rightarrow> unit js" where
  "closeBrowser h ident =
     bnd (harOf ident) (\<lambda>hv.
     bnd (if truthy hv then
            bnd (harProp ident ''provider'') (\<lambda>recorder.
            bnd (on_recorder recorder (\<lambda>p. text_call h (HarStop p))) (\<lambda>harLogData.
            bnd (harProp ident ''file'') (\<lambda>file.
            bnd (if truthy file then
                   bnd (harProp ident ''file'') (\<lambda>f. writeHar h harLogData f)
                 else ret ()) (\<lambda>_.
            bnd (harProp ident ''html'') (\<lambda>html.
            bnd (if truthy html then
                   bnd (harProp ident ''html'') (\<lambda>f. writeHarHtml h harLogData f)
                 else ret ()) (\<lambda>_.
            modify (\<lambda>s. s\<lparr>har := (har s)(ident := None)\<rparr>)))))))
          else ret ()) (\<lambda>_.
     bnd (pageOf ident) (\<lambda>page.
     bnd (on_handle h page PageClose) (\<lambda>_.
     bnd (modify (\<lambda>s. s\<lparr>pages := (pages s)(ident := None)\<rparr>)) (\<lambda>_.
     bnd (gets (\<lambda>s. browsers s ident)) (\<lambda>browser.
     bnd (on_handle h browser BrowserClose) (\<lambda>_.
     modify (\<lambda>s. s\<lparr>browsers := (browsers s)(ident := None)\<rparr>))))))))"

subsection \<open>The other session operations\<close>

definition canResizeWindowToDimensions :: "string \<Rightarrow> int \<Rightarrow> int \<Rightarrow> bool js" where
  "canResizeWindowToDimensions ident w ht =
     bnd (gets (\<lambda>s. screenSizes s ident)) (\<lambda>size.
     case size of
       None \<Rightarrow> throw (TypeError ''Cannot destructure property width of undefined'')
     | Some sz \<Rightarrow> ret (w \<le> width sz \<and> ht \<le> height sz))"

definition resizeWindow :: "host \<Rightarrow> string \<Rightarrow> int \<Rightarrow> int \<Rightarrow> unit js" where
  "resizeWindow h ident w ht =
     bnd (pageOf ident) (\<lambda>page. on_handle h page (\<lambda>p. SetViewport p w ht))"

definition takeScreenshot :: "host \<Rightarrow> string \<Rightarrow> string \<Rightarrow> int \<Rightarrow> int \<Rightarrow> bool \<Rightarrow> unit js" where
  "takeScreenshot h ident screenshotPath pageWidth pageHeight fullPage =
     bnd (void_call h (Mkdir (dirname h screenshotPath))) (\<lambda>_.
     bnd (pageOf ident) (\<lambda>page.
     on_handle h page (\<lambda>p. Screenshot p screenshotPath fullPage)))"

definition hoverElement :: "host \<Rightarrow> string \<Rightarrow> unit js" where
  "hoverElement h selector =
     bnd (text_call h ResolveContextTestRun) (\<lambda>ident.
     bnd (pageOf ident) (\<lambda>page.
     on_handle h page (\<lambda>p. Hover p selector)))"

section \<open>What the statements observe\<close>

text \<open>The elements of the array a value refers to, if it refers to one.\<close>

definition list_at :: "cell list \<Rightarrow> val \<Rightarrow> val list option" where
  "list_at hp v =
     (case v of
        VRef a \<Rightarrow> (case cell_at hp a of None \<Rightarrow> None | Some c \<Rightarrow> elems c)
      | _ \<Rightarrow> None)"

text \<open>The elements of the array that the property \<open>k\<close> of \<open>v\<close> holds.\<close>

definition prop_list :: "cell list \<Rightarrow> val \<Rightarrow> string \<Rightarrow> val list option" where
  "prop_list hp v k = (case get_prop hp v k of Inl e \<Rightarrow> None | Inr x \<Rightarrow> list_at hp x)"

text \<open>
  The arguments that \<open>launchOptionsFromConfig\<close> contributes to the merged list: none when
  its \<open>args\<close> is \<open>null\<close> or \<open>undefined\<close>, else what the spread of its \<open>args\<close> yields.
\<close>

definition config_args :: "cell list \<Rightarrow> val \<Rightarrow> jserr + val list" where
  "config_args hp c =
     (case get_prop hp c ''args'' of
        Inl e \<Rightarrow> Inl e
      | Inr a \<Rightarrow> if nullish a then Inr [] else iterate hp a)"

text \<open>
  The list the launch options' \<open>ignoreDefaultArgs\<close> holds after the merge with the
  config's options \<open>c\<close>: the config's own array when it has the property, else the
  empty default. \<open>None\<close> when the config gives something that is not an array.
\<close>

definition ignore_list :: "cell list \<Rightarrow> val \<Rightarrow> val list option" where
  "ignore_list hp c =
     (case own_props hp c ''ignoreDefaultArgs'' of None \<Rightarrow> Some [] | Some iv \<Rightarrow> list_at hp iv)"

text \<open>A value is valid in a heap when it does not refer beyond it.\<close>

definition valid :: "cell list \<Rightarrow> val \<Rightarrow> bool" where
  "valid hp v = (case v of VRef a \<Rightarrow> a < length hp | _ \<Rightarrow> True)"

text \<open>
  A heap is closed when no cell of it refers beyond it: every heap a program can build
  is.
\<close>

definition closed_heap :: "cell list \<Rightarrow> bool" where
  "closed_heap hp =
     (\<forall>c\<in>set hp. (\<forall>k v. props c k = Some v \<longrightarrow> valid hp v) \<and>
                 (\<forall>xs. elems c = Some xs \<longrightarrow> (\<forall>v\<in>set xs. valid hp v)))"

text \<open>
  The error that reading the configuration runs into, if the module cannot be loaded
  (\<open>require\<close> throws: the file is missing, unreadable or does not parse), if
  \<open>require(configPath).config\<close> or \<open>browserConfiguration.chromium\<close> cannot be read, or
  if the merge of the chromium options fails on their \<open>args\<close>.
\<close>

definition config_failure :: "host \<Rightarrow> cell list \<Rightarrow> string \<Rightarrow> jserr option" where
  "config_failure h hp config =
     (case require_r h (resolve h config) of
        Inl e \<Rightarrow> Some e
      | Inr m \<Rightarrow>
          (case get_prop hp m ''config'' of
             Inl e \<Rightarrow> Some e
           | Inr browserConfiguration \<Rightarrow>
               (case get_prop hp browserConfiguration ''chromium'' of
                  Inl e \<Rightarrow> Some e
                | Inr launchOptionsFromConfig \<Rightarrow>
                    (case config_args hp launchOptionsFromConfig of
                       Inl e \<Rightarrow> Some e
                     | Inr cs \<Rightarrow> None))))"

text \<open>
  The error that the last call of a history throws, as the collaborators answer it;
  \<open>None\<close> when the call returns.
\<close>

definition thrown :: "host \<Rightarrow> call list \<Rightarrow> jserr option" where
  "thrown h cs =
     (case last cs of
        Require p \<Rightarrow> (case require_r h p of Inl e \<Rightarrow> Some e | Inr m \<Rightarrow> None)
      | Launch lo hp \<Rightarrow> (case launch_r h cs of Inl e \<Rightarrow> Some e | Inr b \<Rightarrow> None)
      | BrowserPages b \<Rightarrow> (case pages_r h cs of Inl e \<Rightarrow> Some e | Inr ps \<Rightarrow> None)
      | RunInitScript i \<Rightarrow> (case screen_r h cs of Inl e \<Rightarrow> Some e | Inr sz \<Rightarrow> None)
      | HarStop p \<Rightarrow> (case text_r h cs of Inl e \<Rightarrow> Some e | Inr x \<Rightarrow> None)
      | ReadFile f \<Rightarrow> (case text_r h cs of Inl e \<Rightarrow> Some e | Inr x \<Rightarrow> None)
      | ResolveContextTestRun \<Rightarrow> (case text_r h cs of Inl e \<Rightarrow> Some e | Inr x \<Rightarrow> None)
      | _ \<Rightarrow> void_r h cs)"

text \<open>Every call of \<open>cs\<close>, issued after the history \<open>base\<close>, returns.\<close>

fun quiet :: "host \<Rightarrow> call list \<Rightarrow> call list \<Rightarrow> bool" where
  "quiet h base [] = True"
| "quiet h base (c # cs) = (thrown h (base @ [c]) = None \<and> quiet h (base @ [c]) cs)"

text \<open>
  The error \<open>e\<close> of a method that issued the calls \<open>new\<close>: either every call returned
  (the error is the method's own), or all but the last returned and \<open>e\<close> is what the
  last call threw, wrapped if that call is the \<open>require\<close> of the configuration.
\<close>

definition propagated :: "host \<Rightarrow> call list \<Rightarrow> call list \<Rightarrow> jserr \<Rightarrow> bool" where
  "propagated h base new e =
     (quiet h base new \<or>
      (new \<noteq> [] \<and> quiet h base (butlast new) \<and>
       (\<exists>e0. thrown h (base @ new) = Some e0 \<and>
             e = (case last new of Require p \<Rightarrow> config_error e0 | _ \<Rightarrow> e0))))"

text \<open>The files written by a list of calls, in order: path and content.\<close>

definition written :: "call list \<Rightarrow> (string \<times> string) list" where
  "written cs = concat (map (\<lambda>c. case c of WriteFile f x \<Rightarrow> [(f, x)] | _ \<Rightarrow> []) cs)"

text \<open>An output path of the HAR configuration: missing, or a string.\<close>

definition path_value :: "string option \<Rightarrow> val" where
  "path_value p = (case p of None \<Rightarrow> VUndefined | Some f \<Rightarrow> VStr f)"

text \<open>
  \<open>openBrowser\<close> is the only writer of the \<open>har\<close> map, and it stores truthy values only.
\<close>

definition har_truthy :: "provider \<Rightarrow> bool" where
  "har_truthy s = (\<forall>i v. har s i = Some v \<longrightarrow> truthy v)"

text \<open>
  \<open>wp m Q E s\<close>: run from \<open>s\<close>, \<open>m\<close> returns a value and leaves a state that satisfy \<open>Q\<close>,
  or throws an error and leaves a state that satisfy \<open>E\<close>.
\<close>

definition wp :: "'a js \<Rightarrow> ('a \<Rightarrow> provider \<Rightarrow> bool) \<Rightarrow> (jserr \<Rightarrow> provider \<Rightarrow> bool) \<Rightarrow> provider \<Rightarrow> bool" where
  "wp m Q E s = (case m s of (Inl e, s') \<Rightarrow> E e s' | (Inr x, s') \<Rightarrow> Q x s')"

section \<open>Example collaborators and states\<close>

text \<open>
  Collaborators that never throw: every launch yields the browser 7, whose only page is
  3, on a screen of 1920 by 1080. The modules, the HAR log and the template are
  parameters. The test run in context is that of session \<open>"1"\<close>.
\<close>

definition example_host :: "(string \<Rightarrow> jserr + val) \<Rightarrow> string \<Rightarrow> string \<Rightarrow> host" where
  "example_host modules log template =
     \<lparr>resolve = (\<lambda>p. ''/cwd/'' @ p),
      dirname = (\<lambda>p. ''/cwd/screenshots''),
      template_path = ''/lib/har.html'',
      require_r = modules,
      launch_r = (\<lambda>cs. Inr 7),
      pages_r = (\<lambda>cs. Inr [3]),
      void_r = (\<lambda>cs. None),
      screen_r = (\<lambda>cs. Inr \<lparr>width = 1920, height = 1080\<rparr>),
      text_r = (\<lambda>cs. case last cs of
                         HarStop p \<Rightarrow> Inr log
                       | ReadFile f \<Rightarrow> Inr template
                       | _ \<Rightarrow> Inr ''1'')\<rparr>"

definition no_modules :: "string \<Rightarrow> jserr + val" where
  "no_modules p = Inl (JsError ''Error'' (''Cannot find module '' @ p))"

text \<open>The provider before any session is opened, on a given heap.\<close>

definition fresh_provider :: "cell list \<Rightarrow> provider" where
  "fresh_provider hp =
     \<lparr>heap = hp, browsers = Map.empty, pages = Map.empty, har = Map.empty,
      screenSizes = Map.empty, calls = []\<rparr>"

text \<open>The provider with the session \<open>"1"\<close> open, without HAR capture.\<close>

definition open_session :: provider where
  "open_session =
     \<lparr>heap = [], browsers = [''1'' \<mapsto> 7], pages = [''1'' \<mapsto> Some 3], har = Map.empty,
      screenSizes = [''1'' \<mapsto> \<lparr>width = 1920, height = 1080\<rparr>], calls = []\<rparr>"

text \<open>
  The heap of the merge example: defaults \<open>{args: ['a'], x: 1}\<close> at 1, the overrides
  \<open>{args: ['b']}\<close> at 3 and \<open>{x: 2}\<close> at 4.
\<close>

definition merge_heap :: "cell list" where
  "merge_heap =
     [Cell (Some [VStr ''a'']) Map.empty,
      Cell None [''args'' \<mapsto> VRef 0, ''x'' \<mapsto> VNum 1],
      Cell (Some [VStr ''b'']) Map.empty,
      Cell None [''args'' \<mapsto> VRef 2],
      Cell None [''x'' \<mapsto> VNum 2]]"

text \<open>The module loader that knows the one module \<open>config.js\<close>, whose exports are \<open>m\<close>.\<close>

definition config_modules :: "val \<Rightarrow> string \<Rightarrow> jserr + val" where
  "config_modules m p = (if p = ''/cwd/config.js'' then Inr m else no_modules p)"

text \<open>
  Heaps of configuration modules; the module's exports are the last cell.
  \<open>plain_heap\<close>: \<open>{config: {chromium: {}, disableInfoBars: true}}\<close>.
  \<open>dup_heap\<close>: \<open>{config: {chromium: {args: ['--no-default-browser-check']},
  disableInfoBars: true}}\<close>.
  \<open>ignore_heap\<close>: \<open>{config: {chromium: {ignoreDefaultArgs: []}, disableInfoBars: true}}\<close>.
  \<open>app_heap\<close>: \<open>{config: {chromium: {}, appMode: true}}\<close>.
  \<open>har_heap\<close>: \<open>{config: {chromium: {}, har: {file: 'out.har', html: 'out.html'}}}\<close>.
\<close>

definition plain_heap :: "cell list" where
  "plain_heap =
     [Cell None Map.empty,
      Cell None [''chromium'' \<mapsto> VRef 0, ''disableInfoBars'' \<mapsto> VBool True],
      Cell None [''config'' \<mapsto> VRef 1]]"

text \<open>The collaborators of \<open>plain_heap\<close>, with a launch that throws.\<close>

definition failing_launch :: host where
  "failing_launch =
     (example_host (config_modules (VRef 2)) [] [])
       \<lparr>launch_r := (\<lambda>cs. Inl (JsError ''Error'' ''Failed to launch the browser process!''))\<rparr>"

definition dup_heap :: "cell list" where
  "dup_heap =
     [Cell (Some [VStr ''--no-default-browser-check'']) Map.empty,
      Cell None [''args'' \<mapsto> VRef 0],
      Cell None [''chromium'' \<mapsto> VRef 1, ''disableInfoBars'' \<mapsto> VBool True],
      Cell None [''config'' \<mapsto> VRef 2]]"

definition ignore_heap :: "cell list" where
  "ignore_heap =
     [Cell (Some []) Map.empty,
      Cell None [''ignoreDefaultArgs'' \<mapsto> VRef 0],
      Cell None [''chromium'' \<mapsto> VRef 1, ''disableInfoBars'' \<mapsto> VBool True],
      Cell None [''config'' \<mapsto> VRef 2]]"

definition app_heap :: "cell list" where
  "app_heap =
     [Cell None Map.empty,
      Cell None [''chromium'' \<mapsto> VRef 0, ''appMode'' \<mapsto> VBool True],
      Cell None [''config'' \<mapsto> VRef 1]]"

definition har_heap :: "cell list" where
  "har_heap =
     [Cell None [''file'' \<mapsto> VStr ''out.har'', ''html'' \<mapsto> VStr ''out.html''],
      Cell None Map.empty,
      Cell None [''chromium'' \<mapsto> VRef 1, ''har'' \<mapsto> VRef 0],
      Cell None [''config'' \<mapsto> VRef 2]]"

text \<open>
  Collaborators for \<open>har_heap\<close>: the capture holds one request, to a URL with \<open>$&\<close> in
  its query, and the report template has the placeholder once.
\<close>

definition dollar_host :: host where
  \<open>dollar_host =
     example_host (config_modules (VRef 3)) ''{"url":"http://a/?q=$&lang=en"}''
       ''<script>var har = {harLogData};</script>''\<close>

section \<open>Proof rules\<close>

lemmas js_defs = ret_def throw_def bnd_def catch_def gets_def modify_def newCell_def
  getProp_def setProp_def pushTo_def combine_def issue_def void_call_def text_call_def require_def
  launch_def browser_pages_def runInitScript_def on_handle_def on_recorder_def write_to_def

lemmas method_defs = waitForConnectionReady_def maximizeWindow_def harOf_def harProp_def pageOf_def
  writeHar_def writeHarHtml_def captureHar_def

lemmas example_defs = example_host_def no_modules_def fresh_provider_def open_session_def

text \<open>What a run on a concrete state unfolds.\<close>

lemmas run_defs = openBrowser_def launchBrowser_def preparePage_def readConfig_def
  closeBrowser_def defaultLaunchOptions_def combineLaunchOptions_def config_error_def
  method_defs js_defs alloc_def new_object_def new_array_def cell_at_def or_undefined_def
  example_defs config_modules_def prop_list_def list_at_def

subsection \<open>Cells of a heap that grows\<close>

named_theorems heap_simps

lemma cell_at_Nil [heap_simps]: "cell_at [] a = None"
  by (simp add: cell_at_def)

lemma cell_at_Cons_0 [heap_simps]: "cell_at (c # cs) 0 = Some c"
  by (simp add: cell_at_def)

lemma cell_at_Cons_Suc [heap_simps]: "cell_at (c # cs) (Suc n) = cell_at cs n"
  by (simp add: cell_at_def)

lemma cell_at_append_old [heap_simps]: "a < length hp \<Longrightarrow> cell_at (hp @ cs) a = cell_at hp a"
  by (simp add: cell_at_def nth_append)

lemma cell_at_append_plus: "cell_at (hp @ cs) (length hp + n) = cell_at cs n"
  by (simp add: cell_at_def nth_append)

lemma cell_at_append_new [heap_simps]:
  "cell_at (hp @ cs) (length hp) = cell_at cs 0"
  "cell_at (hp @ cs) (Suc (length hp)) = cell_at cs (Suc 0)"
  "cell_at (hp @ cs) (Suc (Suc (length hp))) = cell_at cs (Suc (Suc 0))"
  "cell_at (hp @ cs) (Suc (Suc (Suc (length hp)))) = cell_at cs (Suc (Suc (Suc 0)))"
  using cell_at_append_plus [of hp cs 0] cell_at_append_plus [of hp cs 1]
    cell_at_append_plus [of hp cs 2] cell_at_append_plus [of hp cs 3]
  by (simp_all add: numeral_2_eq_2 numeral_3_eq_3)

lemma cell_at_update [heap_simps]:
  "cell_at (hp[a := c]) b = (if b = a \<and> a < length hp then Some c else cell_at hp b)"
  by (auto simp add: cell_at_def)

lemma cell_at_Some_less: "cell_at hp a = Some c \<Longrightarrow> a < length hp"
  by (simp add: cell_at_def split: if_splits)

subsection \<open>Running a sequence step by step\<close>

lemma wp_returns: "m s = (Inr x, s') \<Longrightarrow> wp m Q E s \<Longrightarrow> Q x s'"
  by (simp add: wp_def)

lemma wp_throws: "m s = (Inl e, s') \<Longrightarrow> wp m Q E s \<Longrightarrow> E e s'"
  by (simp add: wp_def)

lemma wp_state: "wp m (\<lambda>_. P) (\<lambda>_. P) s \<Longrightarrow> P (snd (m s))"
  by (simp add: wp_def split: prod.splits sum.splits)

lemma wp_mono:
  "wp m Q E s \<Longrightarrow> (\<And>x s'. Q x s' \<Longrightarrow> Q' x s') \<Longrightarrow> (\<And>e s'. E e s' \<Longrightarrow> E' e s') \<Longrightarrow> wp m Q' E' s"
  by (auto simp add: wp_def split: prod.splits sum.splits)

named_theorems wp_intro

lemma wp_retI [wp_intro]: "Q x s \<Longrightarrow> wp (ret x) Q E s"
  by (simp add: wp_def ret_def)

lemma wp_throwI [wp_intro]: "E e s \<Longrightarrow> wp (throw e) Q E s"
  by (simp add: wp_def throw_def)

lemma wp_bndI [wp_intro]: "wp m (\<lambda>x. wp (f x) Q E) E s \<Longrightarrow> wp (bnd m f) Q E s"
  by (simp add: wp_def bnd_def split: prod.splits sum.splits)

lemma wp_catchI [wp_intro]: "wp m Q (\<lambda>e. wp (f e) Q E) s \<Longrightarrow> wp (catch m f) Q E s"
  by (simp add: wp_def catch_def split: prod.splits sum.splits)

lemma wp_getsI [wp_intro]: "Q (f s) s \<Longrightarrow> wp (gets f) Q E s"
  by (simp add: wp_def gets_def)

lemma wp_modifyI [wp_intro]: "Q () (f s) \<Longrightarrow> wp (modify f) Q E s"
  by (simp add: wp_def modify_def)

lemma wp_ifI [wp_intro]:
  "(c \<Longrightarrow> wp m Q E s) \<Longrightarrow> (\<not> c \<Longrightarrow> wp n Q E s) \<Longrightarrow> wp (if c then m else n) Q E s"
  by simp

lemma wp_case_prodI [wp_intro]:
  "(\<And>a b. p = (a, b) \<Longrightarrow> wp (f a b) Q E s) \<Longrightarrow> wp (case p of (a, b) \<Rightarrow> f a b) Q E s"
  by (cases p) simp

lemma wp_case_optionI [wp_intro]:
  "(x = None \<Longrightarrow> wp m Q E s) \<Longrightarrow> (\<And>y. x = Some y \<Longrightarrow> wp (f y) Q E s) \<Longrightarrow>
   wp (case x of None \<Rightarrow> m | Some y \<Rightarrow> f y) Q E s"
  by (cases x) simp_all

lemma wp_newCellI [wp_intro]:
  "Q (VRef (length (heap s))) (s\<lparr>heap := heap s @ [c]\<rparr>) \<Longrightarrow> wp (newCell c) Q E s"
  by (simp add: wp_def newCell_def alloc_def)

lemma wp_getPropI [wp_intro]:
  "(\<And>e. get_prop (heap s) v k = Inl e \<Longrightarrow> E e s) \<Longrightarrow>
   (\<And>x. get_prop (heap s) v k = Inr x \<Longrightarrow> Q x s) \<Longrightarrow> wp (getProp v k) Q E s"
  by (simp add: wp_def getProp_def split: sum.split)

lemma wp_setPropI [wp_intro]:
  "(\<And>e. set_prop (heap s) v k x = Inl e \<Longrightarrow> E e s) \<Longrightarrow>
   (\<And>hp. set_prop (heap s) v k x = Inr hp \<Longrightarrow> Q () (s\<lparr>heap := hp\<rparr>)) \<Longrightarrow>
   wp (setProp v k x) Q E s"
  by (simp add: wp_def setProp_def split: sum.split)

lemma wp_pushToI [wp_intro]:
  "(\<And>e. push (heap s) v x = Inl e \<Longrightarrow> E e s) \<Longrightarrow>
   (\<And>hp. push (heap s) v x = Inr hp \<Longrightarrow> Q () (s\<lparr>heap := hp\<rparr>)) \<Longrightarrow>
   wp (pushTo v x) Q E s"
  by (simp add: wp_def pushTo_def split: sum.split)

lemma wp_combineI [wp_intro]:
  "(\<And>e. combineLaunchOptions (heap s) d c = Inl e \<Longrightarrow> E e s) \<Longrightarrow>
   (\<And>v hp. combineLaunchOptions (heap s) d c = Inr (v, hp) \<Longrightarrow> Q v (s\<lparr>heap := hp\<rparr>)) \<Longrightarrow>
   wp (combine d c) Q E s"
  by (simp add: wp_def combine_def split: sum.split prod.split)

lemma wp_void_callI [wp_intro]:
  "(\<And>e. void_r h (calls s @ [c]) = Some e \<Longrightarrow> E e (s\<lparr>calls := calls s @ [c]\<rparr>)) \<Longrightarrow>
   (void_r h (calls s @ [c]) = None \<Longrightarrow> Q () (s\<lparr>calls := calls s @ [c]\<rparr>)) \<Longrightarrow>
   wp (void_call h c) Q E s"
  by (simp add: wp_def void_call_def issue_def split: option.split)

lemma wp_text_callI [wp_intro]:
  "(\<And>e. text_r h (calls s @ [c]) = Inl e \<Longrightarrow> E e (s\<lparr>calls := calls s @ [c]\<rparr>)) \<Longrightarrow>
   (\<And>x. text_r h (calls s @ [c]) = Inr x \<Longrightarrow> Q x (s\<lparr>calls := calls s @ [c]\<rparr>)) \<Longrightarrow>
   wp (text_call h c) Q E s"
  by (simp add: wp_def text_call_def issue_def split: sum.split)

lemma wp_requireI [wp_intro]:
  "(\<And>e. require_r h p = Inl e \<Longrightarrow> E e (s\<lparr>calls := calls s @ [Require p]\<rparr>)) \<Longrightarrow>
   (\<And>x. require_r h p = Inr x \<Longrightarrow> Q x (s\<lparr>calls := calls s @ [Require p]\<rparr>)) \<Longrightarrow>
   wp (require h p) Q E s"
  by (simp add: wp_def require_def issue_def split: sum.split)

lemma wp_launchI [wp_intro]:
  "(\<And>e. launch_r h (calls s @ [Launch lo (heap s)]) = Inl e \<Longrightarrow>
         E e (s\<lparr>calls := calls s @ [Launch lo (heap s)]\<rparr>)) \<Longrightarrow>
   (\<And>x. launch_r h (calls s @ [Launch lo (heap s)]) = Inr x \<Longrightarrow>
         Q x (s\<lparr>calls := calls s @ [Launch lo (heap s)]\<rparr>)) \<Longrightarrow>
   wp (launch h lo) Q E s"
  by (simp add: wp_def launch_def issue_def split: sum.split)

lemma wp_browser_pagesI [wp_intro]:
  "(\<And>e. pages_r h (calls s @ [BrowserPages b]) = Inl e \<Longrightarrow>
         E e (s\<lparr>calls := calls s @ [BrowserPages b]\<rparr>)) \<Longrightarrow>
   (\<And>x. pages_r h (calls s @ [BrowserPages b]) = Inr x \<Longrightarrow>
         Q x (s\<lparr>calls := calls s @ [BrowserPages b]\<rparr>)) \<Longrightarrow>
   wp (browser_pages h b) Q E s"
  by (simp add: wp_def browser_pages_def issue_def split: sum.split)

lemma wp_runInitScriptI [wp_intro]:
  "(\<And>e. screen_r h (calls s @ [RunInitScript i]) = Inl e \<Longrightarrow>
         E e (s\<lparr>calls := calls s @ [RunInitScript i]\<rparr>)) \<Longrightarrow>
   (\<And>x. screen_r h (calls s @ [RunInitScript i]) = Inr x \<Longrightarrow>
         Q x (s\<lparr>calls := calls s @ [RunInitScript i]\<rparr>)) \<Longrightarrow>
   wp (runInitScript h i) Q E s"
  by (simp add: wp_def runInitScript_def issue_def split: sum.split)

lemma wp_on_handleI [wp_intro]:
  "(x = None \<Longrightarrow> E (TypeError ''Cannot read properties of undefined'') s) \<Longrightarrow>
   (\<And>p. x = Some p \<Longrightarrow> wp (void_call h (c p)) Q E s) \<Longrightarrow>
   wp (on_handle h x c) Q E s"
  by (cases x) (simp_all add: on_handle_def wp_def throw_def)

lemma wp_on_recorderI [wp_intro]:
  "(\<And>e. (\<forall>p. v \<noteq> VRecorder p) \<Longrightarrow>
         e \<in> {TypeError ''Cannot read properties of undefined'',
              TypeError ''Cannot read properties of null'', TypeError ''not a function''} \<Longrightarrow>
         E e s) \<Longrightarrow>
   (\<And>p. v = VRecorder p \<Longrightarrow> wp (m p) Q E s) \<Longrightarrow>
   wp (on_recorder v m) Q E s"
  by (cases v) (simp_all add: on_recorder_def wp_def throw_def)

lemma wp_write_toI [wp_intro]:
  "((\<forall>p. f \<noteq> VStr p) \<Longrightarrow> E (TypeError ''The path argument must be of type string'') s) \<Longrightarrow>
   (\<And>p. f = VStr p \<Longrightarrow> wp (void_call h (WriteFile (resolve h p) content)) Q E s) \<Longrightarrow>
   wp (write_to h f content) Q E s"
  by (cases f) (simp_all add: write_to_def wp_def throw_def)

subsection \<open>Values in a heap that grows\<close>

lemma get_prop_valid: "get_prop hp v k = Inr x \<Longrightarrow> valid hp v"
  by (cases v) (auto simp: valid_def cell_at_def split: if_splits)

lemma iterate_valid: "iterate hp v = Inr xs \<Longrightarrow> valid hp v"
  by (cases v) (auto simp: valid_def cell_at_def split: if_splits)

lemma get_prop_append: "valid hp v \<Longrightarrow> get_prop (hp @ cs) v k = get_prop hp v k"
  by (cases v) (auto simp: valid_def heap_simps)

lemma iterate_append: "valid hp v \<Longrightarrow> iterate (hp @ cs) v = iterate hp v"
  by (cases v) (auto simp: valid_def heap_simps)

lemma own_props_append: "valid hp v \<Longrightarrow> own_props (hp @ cs) v = own_props hp v"
  by (cases v) (auto simp: valid_def heap_simps)

lemma valid_append: "valid hp v \<Longrightarrow> valid (hp @ cs) v"
  by (cases v) (auto simp: valid_def)

lemma config_args_append:
  assumes "config_args hp c = Inr cs"
  shows "config_args (hp @ xs) c = Inr cs"
proof -
  from assms obtain a where a: "get_prop hp c ''args'' = Inr a"
    by (auto simp: config_args_def split: sum.splits)
  then have c: "valid hp c" by (rule get_prop_valid)
  show ?thesis
  proof (cases "nullish a")
    case True
    with assms a c show ?thesis by (simp add: config_args_def get_prop_append)
  next
    case False
    with assms a have "iterate hp a = Inr cs" by (simp add: config_args_def)
    with False a c show ?thesis
      by (simp add: config_args_def get_prop_append iterate_append iterate_valid)
  qed
qed

text \<open>What combineLaunchOptions builds, when the defaults are an object with an args array.\<close>

lemma combineLaunchOptions_result:
  assumes d: "cell_at hp d = Some (Cell None dps)" "dps ''args'' = Some (VRef da)"
    "cell_at hp da = Some (Cell (Some ds) daps)"
    and c: "config_args hp c = Inr cs"
  shows "combineLaunchOptions hp (VRef d) c =
     Inr (VRef (length hp),
          if nullish (case get_prop hp c ''args'' of Inr a \<Rightarrow> a | Inl e \<Rightarrow> VUndefined)
          then hp @ [Cell None ((dps ++ own_props hp c)(''args'' \<mapsto> VRef da))]
          else hp @ [Cell None ((dps ++ own_props hp c)(''args'' \<mapsto> VRef (Suc (length hp)))),
                     Cell (Some (ds @ cs)) Map.empty])"
proof -
  from c obtain a where a: "get_prop hp c ''args'' = Inr a"
    by (auto simp: config_args_def split: sum.splits)
  then have vc: "valid hp c" by (rule get_prop_valid)
  have less: "d < length hp" "da < length hp"
    using d by (auto dest: cell_at_Some_less)
  show ?thesis
  proof (cases "nullish a")
    case True
    with a vc d less show ?thesis
      by (simp add: combineLaunchOptions_def alloc_def new_object_def get_prop_append
          own_props_append heap_simps or_undefined_def)
  next
    case False
    with c a have it: "iterate hp a = Inr cs" by (simp add: config_args_def)
    then have "valid hp a" by (rule iterate_valid)
    with False a vc d less it show ?thesis
      by (simp add: combineLaunchOptions_def alloc_def new_object_def new_array_def
          get_prop_append iterate_append own_props_append heap_simps or_undefined_def)
  qed
qed

subsection \<open>The launch options that the try block builds\<close>

lemma truthy_default [simp]: "truthy (if nullish v then VBool False else v) = truthy v"
  by (cases v) simp_all

lemma valid_update [simp]: "valid (hp[a := c]) v = valid hp v"
  by (cases v) (simp_all add: valid_def)

lemma get_prop_Inl: "get_prop hp v k = Inl e \<Longrightarrow> nullish v \<or> \<not> valid hp v"
  by (cases v) (auto simp: valid_def cell_at_def split: option.splits if_splits)

lemma get_prop_not_nullish: "get_prop hp v k = Inr x \<Longrightarrow> \<not> nullish v"
  by (cases v) auto

lemma get_prop_same_cell:
  assumes "valid hp v" "\<And>a. a < length hp \<Longrightarrow> cell_at hp' a = cell_at hp a"
  shows "get_prop hp' v k = get_prop hp v k"
  using assms by (cases v) (auto simp: valid_def)

text \<open>The rest of the try block, after the merge, on a heap known by its cells.\<close>

lemma readConfig_options:
  assumes req: "require_r h (resolve h config) = Inr m" "config \<noteq> []"
    and bc: "get_prop (heap s) m ''config'' = Inr bc"
      "get_prop (heap s) bc ''chromium'' = Inr ch"
      "get_prop (heap s) bc ''appMode'' = Inr am"
      "get_prop (heap s) bc ''disableInfoBars'' = Inr dib"
    and comb: "combineLaunchOptions (heap s) d ch = Inr (VRef n, hp2)"
    and hp2: "length (heap s) \<le> n" "n < length hp2"
      "\<And>a. a < length (heap s) \<Longrightarrow> cell_at hp2 a = cell_at (heap s) a"
      "cell_at hp2 n = Some (Cell None ps)" "ps ''args'' = Some (VRef A)"
      "cell_at hp2 A = Some (Cell (Some xs) Map.empty)" "A \<noteq> n"
    and ign: "truthy dib \<longrightarrow> ps ''ignoreDefaultArgs'' = Some (VRef I) \<and>
               cell_at hp2 I = Some (Cell (Some old) ips) \<and> I \<noteq> n \<and> I \<noteq> A"
  shows "wp (readConfig h pageUrl config d)
     (\<lambda>(lo, am', hv) t. truthy am' = truthy am \<and>
        browsers t = browsers s \<and> pages t = pages s \<and> har t = har s \<and>
        screenSizes t = screenSizes s \<and>
        calls t = calls s @ [Require (resolve h config)] \<and>
        prop_list (heap t) lo ''args'' =
          Some (xs @ (if truthy am then [VStr (''--app='' @ pageUrl)] else []) @
                (if truthy dib then [VStr ''--no-default-browser-check''] else [])) \<and>
        (truthy dib \<longrightarrow>
           prop_list (heap t) lo ''ignoreDefaultArgs'' = Some (old @ [VStr ''--enable-automation''])) \<and>
        (truthy am \<longrightarrow> get_prop (heap t) lo ''headless'' = Inr (VBool False)))
     (\<lambda>e t. False)
     s"
proof -
  have vbc: "valid (heap s) bc" using bc(2) by (rule get_prop_valid)
  have nbc: "\<not> nullish bc" using bc(2) by (rule get_prop_not_nullish)
  have same: "\<And>k. get_prop hp2 bc k = get_prop (heap s) bc k"
    using vbc hp2(3) by (rule get_prop_same_cell)
  have vbc2: "valid hp2 bc"
    using vbc hp2(1,2) by (cases bc) (auto simp: valid_def)
  have total: "\<And>hp k e. valid hp bc \<Longrightarrow> get_prop hp bc k \<noteq> Inl e"
    using nbc by (auto dest: get_prop_Inl)
  have lessA: "A < length hp2"
    using hp2(6) by (rule cell_at_Some_less)
  have lessI: "truthy dib \<longrightarrow> I < length hp2"
    using ign by (auto dest: cell_at_Some_less)
  show ?thesis
    unfolding readConfig_def
    apply (intro wp_intro)
    using req bc comb hp2 ign same vbc vbc2 total lessA lessI
                        apply (auto simp add: heap_simps prop_list_def list_at_def or_undefined_def)
    done
qed

lemma launchBrowser_config:
  assumes u: "browsers s ident = None" "config \<noteq> []"
    and m: "require_r h (resolve h config) = Inr m" "get_prop (heap s) m ''config'' = Inr bc"
    and ch: "get_prop (heap s) bc ''chromium'' = Inr ch" "config_args (heap s) ch = Inr cs"
    and am: "get_prop (heap s) bc ''appMode'' = Inr am"
    and dib: "get_prop (heap s) bc ''disableInfoBars'' = Inr dib"
    and ign: "truthy dib \<longrightarrow> ignore_list (heap s) ch = Some old"
  shows "wp (launchBrowser h ident pageUrl config)
     (\<lambda>(b, lo, am', hv) t. truthy am' = truthy am \<and>
        browsers t = browsers s \<and> pages t = pages s \<and> har t = har s \<and>
        screenSizes t = screenSizes s \<and>
        calls t = calls s @ [Require (resolve h config), Launch lo (heap t)] \<and>
        prop_list (heap t) lo ''args'' =
          Some (VStr ''--disable-infobars'' # cs @
                (if truthy am then [VStr (''--app='' @ pageUrl)] else []) @
                (if truthy dib then [VStr ''--no-default-browser-check''] else [])) \<and>
        (truthy dib \<longrightarrow>
           prop_list (heap t) lo ''ignoreDefaultArgs'' = Some (old @ [VStr ''--enable-automation''])) \<and>
        (truthy am \<longrightarrow> get_prop (heap t) lo ''headless'' = Inr (VBool False)))
     (\<lambda>e t. \<exists>lo.
        browsers t = browsers s \<and> pages t = pages s \<and> har t = har s \<and>
        screenSizes t = screenSizes s \<and>
        calls t = calls s @ [Require (resolve h config), Launch lo (heap t)] \<and>
        prop_list (heap t) lo ''args'' =
          Some (VStr ''--disable-infobars'' # cs @
                (if truthy am then [VStr (''--app='' @ pageUrl)] else []) @
                (if truthy dib then [VStr ''--no-default-browser-check''] else [])) \<and>
        (truthy dib \<longrightarrow>
           prop_list (heap t) lo ''ignoreDefaultArgs'' = Some (old @ [VStr ''--enable-automation''])) \<and>
        (truthy am \<longrightarrow> get_prop (heap t) lo ''headless'' = Inr (VBool False)))
     s"
proof -
  let ?n = "length (heap s)"
  define dps where "dps = [''args'' \<mapsto> VRef ?n, ''defaultViewport'' \<mapsto> VNull,
    ''headless'' \<mapsto> VBool False, ''ignoreDefaultArgs'' \<mapsto> VRef (Suc ?n), ''timeout'' \<mapsto> VNum 30000]"
  define hp1 where "hp1 = heap s @ [Cell (Some [VStr ''--disable-infobars'']) Map.empty,
    Cell (Some []) Map.empty, Cell None dps, Cell None Map.empty]"
  define s1 where "s1 = s\<lparr>heap := hp1\<rparr>"
  define A where "A = (if nullish (case get_prop hp1 ch ''args'' of Inr a \<Rightarrow> a | Inl e \<Rightarrow> VUndefined)
                       then ?n else Suc (length hp1))"
  define ps where "ps = (dps ++ own_props hp1 ch)(''args'' \<mapsto> VRef A)"
  define hp2 where "hp2 = (if nullish (case get_prop hp1 ch ''args'' of Inr a \<Rightarrow> a | Inl e \<Rightarrow> VUndefined)
      then hp1 @ [Cell None ps]
      else hp1 @ [Cell None ps, Cell (Some ([VStr ''--disable-infobars''] @ cs)) Map.empty])"
  have len1: "length hp1 = ?n + 4"
    by (simp add: hp1_def)
  have old_cells: "\<And>a. a < ?n \<Longrightarrow> cell_at hp1 a = cell_at (heap s) a"
    by (simp add: hp1_def heap_simps)
  have vm: "valid (heap s) m" using m(2) by (rule get_prop_valid)
  have vbc: "valid (heap s) bc" using ch(1) by (rule get_prop_valid)
  have vch: "valid (heap s) ch"
    using ch(2) by (auto simp: config_args_def split: sum.splits dest: get_prop_valid)
  have ca: "config_args hp1 ch = Inr cs"
    unfolding hp1_def using ch(2) by (rule config_args_append)
  have args_nullish: "nullish (case get_prop hp1 ch ''args'' of Inr a \<Rightarrow> a | Inl e \<Rightarrow> VUndefined) \<Longrightarrow> cs = []"
    using ca by (auto simp: config_args_def split: sum.splits)
  have comb: "combineLaunchOptions hp1 (VRef (Suc (Suc ?n))) ch = Inr (VRef (length hp1), hp2)"
  proof -
    have "combineLaunchOptions hp1 (VRef (Suc (Suc ?n))) ch =
      Inr (VRef (length hp1),
          if nullish (case get_prop hp1 ch ''args'' of Inr a \<Rightarrow> a | Inl e \<Rightarrow> VUndefined)
          then hp1 @ [Cell None ((dps ++ own_props hp1 ch)(''args'' \<mapsto> VRef ?n))]
          else hp1 @ [Cell None ((dps ++ own_props hp1 ch)(''args'' \<mapsto> VRef (Suc (length hp1)))),
                     Cell (Some ([VStr ''--disable-infobars''] @ cs)) Map.empty])"
      by (rule combineLaunchOptions_result [OF _ _ _ ca, where daps = Map.empty and dps = dps])
        (simp_all add: hp1_def dps_def heap_simps)
    then show ?thesis
      by (simp add: hp2_def ps_def A_def)
  qed
  have g1: "get_prop hp1 m ''config'' = Inr bc" "get_prop hp1 bc ''chromium'' = Inr ch"
    "get_prop hp1 bc ''appMode'' = Inr am" "get_prop hp1 bc ''disableInfoBars'' = Inr dib"
    using m ch am dib vm vbc by (simp_all add: hp1_def get_prop_append)
  have cells2: "\<And>a. a < length hp1 \<Longrightarrow> cell_at hp2 a = cell_at hp1 a"
    by (simp add: hp2_def heap_simps)
  have lo_cell: "cell_at hp2 (length hp1) = Some (Cell None ps)"
    by (simp add: hp2_def heap_simps)
  have A_cell: "cell_at hp2 A = Some (Cell (Some (VStr ''--disable-infobars'' # cs)) Map.empty)"
    using args_nullish by (auto simp add: hp2_def A_def hp1_def cell_at_def nth_append)
  have A_neq: "A \<noteq> length hp1"
    by (simp add: A_def len1)
  have ign2: "truthy dib \<longrightarrow> (\<exists>I ips. ps ''ignoreDefaultArgs'' = Some (VRef I) \<and>
               cell_at hp2 I = Some (Cell (Some old) ips) \<and> I \<noteq> length hp1 \<and> I \<noteq> A)"
  proof
    assume "truthy dib"
    with ign have il: "ignore_list (heap s) ch = Some old" by simp
    have op: "own_props hp1 ch = own_props (heap s) ch"
      unfolding hp1_def using vch by (rule own_props_append)
    show "\<exists>I ips. ps ''ignoreDefaultArgs'' = Some (VRef I) \<and>
               cell_at hp2 I = Some (Cell (Some old) ips) \<and> I \<noteq> length hp1 \<and> I \<noteq> A"
    proof (cases "own_props (heap s) ch ''ignoreDefaultArgs''")
      case None
      with il have "old = []" by (simp add: ignore_list_def)
      moreover have "ps ''ignoreDefaultArgs'' = Some (VRef (Suc ?n))"
        using None by (simp add: ps_def op dps_def map_add_def)
      moreover have "cell_at hp2 (Suc ?n) = Some (Cell (Some []) Map.empty)"
        by (simp add: cells2 len1) (simp add: hp1_def heap_simps)
      ultimately show ?thesis
        by (auto simp: A_def len1)
    next
      case (Some iv)
      with il have "list_at (heap s) iv = Some old" by (simp add: ignore_list_def)
      then obtain i c where i: "iv = VRef i" "cell_at (heap s) i = Some c" "elems c = Some old"
        by (auto simp: list_at_def split: val.splits option.splits)
      then have less: "i < ?n" by (auto dest: cell_at_Some_less)
      have "ps ''ignoreDefaultArgs'' = Some (VRef i)"
        using Some i by (simp add: ps_def op map_add_def)
      moreover have "cell_at hp2 i = Some (Cell (Some old) (props c))"
        using less i by (simp add: cells2 len1 old_cells) (cases c, simp)
      ultimately show ?thesis
        using less by (auto simp: A_def len1)
    qed
  qed
  then obtain I ips where ign3: "truthy dib \<longrightarrow> ps ''ignoreDefaultArgs'' = Some (VRef I) \<and>
               cell_at hp2 I = Some (Cell (Some old) ips) \<and> I \<noteq> length hp1 \<and> I \<noteq> A"
    by blast
  have rc: "wp (readConfig h pageUrl config (VRef (Suc (Suc ?n))))
     (\<lambda>(lo, am', hv) t. truthy am' = truthy am \<and>
        browsers t = browsers s1 \<and> pages t = pages s1 \<and> har t = har s1 \<and>
        screenSizes t = screenSizes s1 \<and>
        calls t = calls s1 @ [Require (resolve h config)] \<and>
        prop_list (heap t) lo ''args'' =
          Some ((VStr ''--disable-infobars'' # cs) @ (if truthy am then [VStr (''--app='' @ pageUrl)] else []) @
                (if truthy dib then [VStr ''--no-default-browser-check''] else [])) \<and>
        (truthy dib \<longrightarrow>
           prop_list (heap t) lo ''ignoreDefaultArgs'' = Some (old @ [VStr ''--enable-automation''])) \<and>
        (truthy am \<longrightarrow> get_prop (heap t) lo ''headless'' = Inr (VBool False)))
     (\<lambda>e t. False) s1"
    apply (rule readConfig_options [where m = m and bc = bc and ch = ch and dib = dib and n = "length hp1"
          and ?hp2.0 = hp2 and ps = ps and A = A and I = I and ips = ips])
    using m u g1 comb cells2 lo_cell A_cell A_neq ign3
                 apply (simp_all add: s1_def ps_def)
    apply (simp add: hp2_def)
    done
  show ?thesis
    using rc u
    by (auto simp add: wp_def launchBrowser_def defaultLaunchOptions_def js_defs alloc_def
        new_array_def new_object_def s1_def hp1_def dps_def split: prod.splits sum.splits)
qed

lemma combineLaunchOptions_frame:
  assumes "combineLaunchOptions hp d c = Inr (v, hp')"
  shows "length hp \<le> length hp' \<and> (\<forall>a<length hp. cell_at hp' a = cell_at hp a)"
  using assms
  by (auto simp: combineLaunchOptions_def alloc_def heap_simps
      split: sum.splits if_splits option.splits prod.splits)

lemma flag_neq [simp]:
  "''--disable-infobars'' \<noteq> ''--no-default-browser-check''"
  "''--app='' @ u \<noteq> ''--no-default-browser-check''"
  by simp_all

subsection \<open>openBrowser in two parts\<close>

lemma preparePage_calls:
  "wp (preparePage h ident pageUrl browser launchOptions appMode hv)
     (\<lambda>_ t. \<exists>cs. calls t = calls s @ cs \<and>
        (\<forall>c\<in>set cs. c \<in> {BrowserPages browser, WaitForConnectionReady ident, Maximize ident,
                              RunInitScript ident} \<or>
                    (\<exists>p. c = HarStart p \<and> truthy hv) \<or>
                    (\<exists>p. c = Goto p pageUrl \<and> \<not> truthy appMode)))
     (\<lambda>_ t. \<exists>cs. calls t = calls s @ cs \<and>
        (\<forall>c\<in>set cs. c \<in> {BrowserPages browser, WaitForConnectionReady ident, Maximize ident,
                              RunInitScript ident} \<or>
                    (\<exists>p. c = HarStart p \<and> truthy hv) \<or>
                    (\<exists>p. c = Goto p pageUrl \<and> \<not> truthy appMode)))
     s"
  unfolding preparePage_def method_defs
  by (intro wp_intro) auto

lemma openBrowser_wp:
  assumes "wp (launchBrowser h ident pageUrl config) (\<lambda>(b, lo, am, hv). Q1 b lo am hv) E1 s"
    and "\<And>b lo am hv t. Q1 b lo am hv t \<Longrightarrow> wp (preparePage h ident pageUrl b lo am hv) Q E t"
    and "\<And>e t. E1 e t \<Longrightarrow> E e t"
  shows "wp (openBrowser h ident pageUrl config) Q E s"
  unfolding openBrowser_def
  by (rule wp_bndI, rule wp_mono [OF assms(1)]) (auto intro: assms(2,3))

lemma launchBrowser_appMode:
  assumes u: "browsers s ident = None" "config \<noteq> []"
    and m: "require_r h (resolve h config) = Inr m" "get_prop (heap s) m ''config'' = Inr bc"
    and am: "get_prop (heap s) bc ''appMode'' = Inr (VBool True)"
  shows "wp (launchBrowser h ident pageUrl config)
     (\<lambda>(b, lo, am', hv) t. truthy am' \<and>
        (\<exists>cs. calls t = calls s @ cs \<and> (\<forall>p u. Goto p u \<notin> set cs)))
     (\<lambda>e t. \<exists>cs. calls t = calls s @ cs \<and> (\<forall>p u. Goto p u \<notin> set cs))
     s"
proof -
  have vm: "valid (heap s) m" using m(2) by (rule get_prop_valid)
  have vbc: "valid (heap s) bc" using am by (rule get_prop_valid)
  have same: "get_prop hp' bc ''appMode'' = Inr (VBool True)"
    if "combineLaunchOptions (heap s @ ys) d c = Inr (v, hp')" for ys d c v hp'
  proof -
    from combineLaunchOptions_frame [OF that]
    have "\<And>a. a < length (heap s) \<Longrightarrow> cell_at hp' a = cell_at (heap s) a"
      by (simp add: heap_simps)
    with vbc have "get_prop hp' bc ''appMode'' = get_prop (heap s) bc ''appMode''"
      by (rule get_prop_same_cell)
    with am show ?thesis by simp
  qed
  show ?thesis
    unfolding launchBrowser_def readConfig_def defaultLaunchOptions_def
    apply (intro wp_intro)
    using u m vm vbc
                        apply (auto simp add: get_prop_append dest!: same)
    done
qed

section \<open>The merge of the launch options\<close>

text \<open>
  Claim C1. For defaults that are an object whose \<open>args\<close> is an array \<open>ds\<close>, and an
  override that is an object: \<open>combineLaunchOptions\<close> returns a new object; when the
  override's \<open>args\<close> is missing, \<open>undefined\<close> or \<open>null\<close>, the result's \<open>args\<close> is the
  defaults' array itself, so its elements are \<open>ds\<close>; when the override's \<open>args\<close> is an
  array \<open>cs\<close>, the result's \<open>args\<close> is an array of the elements \<open>ds @ cs\<close>, never \<open>cs\<close>
  alone. Every other property the override has takes the override's value, every
  property it has not keeps the defaults' value. No cell that existed is changed.
\<close>

theorem combineLaunchOptions_merge:
  assumes d: "cell_at hp d = Some (Cell None dps)"
    and da: "dps ''args'' = Some dargs" "list_at hp dargs = Some ds"
    and c: "cell_at hp c = Some (Cell None cps)"
    and ca: "cps ''args'' \<in> {None, Some VUndefined, Some VNull} \<or>
             (\<exists>cargs. cps ''args'' = Some cargs \<and> list_at hp cargs = Some cs)"
  shows "\<exists>lo hp' la. combineLaunchOptions hp (VRef d) (VRef c) = Inr (lo, hp') \<and>
           get_prop hp' lo ''args'' = Inr la \<and>
           list_at hp' la =
             Some (if cps ''args'' \<in> {None, Some VUndefined, Some VNull} then ds else ds @ cs) \<and>
           (cps ''args'' \<in> {None, Some VUndefined, Some VNull} \<longrightarrow> la = dargs) \<and>
           (\<forall>k. k \<noteq> ''args'' \<longrightarrow>
                own_props hp' lo k = (case cps k of Some v \<Rightarrow> Some v | None \<Rightarrow> dps k)) \<and>
           (\<forall>a < length hp. cell_at hp' a = cell_at hp a)"
proof -
  obtain i dc where dargs: "dargs = VRef i" "cell_at hp i = Some dc" "elems dc = Some ds"
    using da(2) by (auto simp: list_at_def split: val.splits option.splits)
  have less: "d < length hp" "c < length hp" "i < length hp"
    using d c dargs by (auto dest: cell_at_Some_less)
  show ?thesis
  proof (cases "cps ''args'' \<in> {None, Some VUndefined, Some VNull}")
    case True
    then have "nullish (or_undefined (cps ''args''))"
      by (auto simp: or_undefined_def)
    with True show ?thesis
      using d da c dargs less
      by (auto simp: combineLaunchOptions_def alloc_def new_object_def list_at_def
          or_undefined_def map_add_def nth_append cell_at_def split: option.splits)
  next
    case False
    then obtain cargs where cargs: "cps ''args'' = Some cargs" "list_at hp cargs = Some cs"
      using ca by auto
    then obtain j cc where j: "cargs = VRef j" "cell_at hp j = Some cc" "elems cc = Some cs"
      by (auto simp: list_at_def split: val.splits option.splits)
    have "j < length hp"
      using j by (auto dest: cell_at_Some_less)
    with False show ?thesis
      using cargs j d da c dargs less
      by (auto simp: combineLaunchOptions_def alloc_def new_object_def new_array_def list_at_def
          or_undefined_def map_add_def nth_append cell_at_def split: option.splits)
  qed
qed

text \<open>
  The two merges of the specification: \<open>{args: ['a'], x: 1}\<close> with \<open>{args: ['b']}\<close> has
  the \<open>args\<close> \<open>['a', 'b']\<close>, and with \<open>{x: 2}\<close> it has the \<open>args\<close> \<open>['a']\<close> and \<open>x = 2\<close>.
\<close>

theorem combineLaunchOptions_merge_witness:
  "(\<exists>lo hp' la. combineLaunchOptions merge_heap (VRef 1) (VRef 3) = Inr (lo, hp') \<and>
      get_prop hp' lo ''args'' = Inr la \<and>
      list_at hp' la = Some [VStr ''a'', VStr ''b''] \<and>
      own_props hp' lo ''x'' = Some (VNum 1)) \<and>
   (\<exists>lo hp' la. combineLaunchOptions merge_heap (VRef 1) (VRef 4) = Inr (lo, hp') \<and>
      get_prop hp' lo ''args'' = Inr la \<and>
      list_at hp' la = Some [VStr ''a''] \<and> la = VRef 0 \<and>
      own_props hp' lo ''x'' = Some (VNum 2))"
proof -
  let ?dps = "[''args'' \<mapsto> VRef 0, ''x'' \<mapsto> VNum 1]"
  have d: "cell_at merge_heap 1 = Some (Cell None ?dps)"
    by (simp add: merge_heap_def cell_at_def)
  have da: "?dps ''args'' = Some (VRef 0)"
    by simp
  have dl: "list_at merge_heap (VRef 0) = Some [VStr ''a'']"
    by (simp add: merge_heap_def cell_at_def list_at_def)
  have c3: "cell_at merge_heap 3 = Some (Cell None [''args'' \<mapsto> VRef 2])"
    by (simp add: merge_heap_def cell_at_def)
  have ca3: "[''args'' \<mapsto> VRef 2] ''args'' \<in> {None, Some VUndefined, Some VNull} \<or>
             (\<exists>cargs. [''args'' \<mapsto> VRef 2] ''args'' = Some cargs \<and>
                      list_at merge_heap cargs = Some [VStr ''b''])"
    by (simp add: merge_heap_def cell_at_def list_at_def)
  have c4: "cell_at merge_heap 4 = Some (Cell None [''x'' \<mapsto> VNum 2])"
    by (simp add: merge_heap_def cell_at_def)
  have ca4: "[''x'' \<mapsto> VNum 2] ''args'' \<in> {None, Some VUndefined, Some VNull} \<or>
             (\<exists>cargs. [''x'' \<mapsto> VNum 2] ''args'' = Some cargs \<and>
                      list_at merge_heap cargs = Some [])"
    by simp
  from combineLaunchOptions_merge [OF d da dl c3 ca3] obtain lo hp' la where
    "combineLaunchOptions merge_heap (VRef 1) (VRef 3) = Inr (lo, hp')"
    "get_prop hp' lo ''args'' = Inr la"
    "list_at hp' la = Some [VStr ''a'', VStr ''b'']"
    "\<forall>k. k \<noteq> ''args'' \<longrightarrow>
        own_props hp' lo k = (case [''args'' \<mapsto> VRef 2] k of Some v \<Rightarrow> Some v | None \<Rightarrow> ?dps k)"
    by auto
  moreover from this(4) have "own_props hp' lo ''x'' = Some (VNum 1)"
    by simp
  ultimately have first: "\<exists>lo hp' la.
      combineLaunchOptions merge_heap (VRef 1) (VRef 3) = Inr (lo, hp') \<and>
      get_prop hp' lo ''args'' = Inr la \<and>
      list_at hp' la = Some [VStr ''a'', VStr ''b''] \<and>
      own_props hp' lo ''x'' = Some (VNum 1)"
    by blast
  from combineLaunchOptions_merge [OF d da dl c4 ca4] obtain lo hp' la where
    "combineLaunchOptions merge_heap (VRef 1) (VRef 4) = Inr (lo, hp')"
    "get_prop hp' lo ''args'' = Inr la"
    "list_at hp' la = Some [VStr ''a'']" "la = VRef 0"
    "\<forall>k. k \<noteq> ''args'' \<longrightarrow>
        own_props hp' lo k = (case [''x'' \<mapsto> VNum 2] k of Some v \<Rightarrow> Some v | None \<Rightarrow> ?dps k)"
    by auto
  moreover from this(5) have "own_props hp' lo ''x'' = Some (VNum 2)"
    by simp
  ultimately have "\<exists>lo hp' la.
      combineLaunchOptions merge_heap (VRef 1) (VRef 4) = Inr (lo, hp') \<and>
      get_prop hp' lo ''args'' = Inr la \<and>
      list_at hp' la = Some [VStr ''a''] \<and> la = VRef 0 \<and>
      own_props hp' lo ''x'' = Some (VNum 2)"
    by blast
  with first show ?thesis
    by blast
qed

section \<open>The launch options of a configuration file\<close>

text \<open>
  Claim C2, as the code has it. The claim fails where the options are not read at all
  (a browser is tracked for the id: nothing is appended), and where the list an entry is
  pushed onto holds the entry already (the launch options then hold it more than once);
  both are shown by \<open>openBrowser_disableInfoBars_counterexample\<close>.

  For a call that launches (no browser tracked for the id) with a config that is read
  (its module is loaded, it has chromium options \<open>ch\<close> whose \<open>args\<close> contribute the
  list \<open>cs\<close> to the merge, and the \<open>ignoreDefaultArgs\<close> of the merged options is a list
  \<open>old\<close>) and whose \<open>disableInfoBars\<close> is true: the launch is issued with the \<open>args\<close>
  \<open>--disable-infobars\<close>, \<open>cs\<close>, the \<open>--app=\<close> argument if \<open>appMode\<close> is truthy, and
  then \<open>--no-default-browser-check\<close>, once; and with the \<open>ignoreDefaultArgs\<close> \<open>old\<close>
  and then \<open>--enable-automation\<close>, once. So each entry occurs once more than in the
  list it was pushed onto, and exactly once if that list did not hold it.
\<close>

theorem openBrowser_disableInfoBars:
  assumes u: "browsers s ident = None" "config \<noteq> []"
    and m: "require_r h (resolve h config) = Inr m" "get_prop (heap s) m ''config'' = Inr bc"
    and dib: "get_prop (heap s) bc ''disableInfoBars'' = Inr (VBool True)"
    and ch: "get_prop (heap s) bc ''chromium'' = Inr ch" "config_args (heap s) ch = Inr cs"
      "ignore_list (heap s) ch = Some old"
    and am: "get_prop (heap s) bc ''appMode'' = Inr am"
  shows "\<exists>lo hp rest args ignored.
           calls (snd (openBrowser h ident pageUrl config s)) =
             calls s @ Require (resolve h config) # Launch lo hp # rest \<and>
           prop_list hp lo ''args'' = Some args \<and>
           prop_list hp lo ''ignoreDefaultArgs'' = Some ignored \<and>
           args = VStr ''--disable-infobars'' # cs @
                  (if truthy am then [VStr (''--app='' @ pageUrl)] else []) @
                  [VStr ''--no-default-browser-check''] \<and>
           ignored = old @ [VStr ''--enable-automation''] \<and>
           count_list args (VStr ''--no-default-browser-check'') =
             Suc (count_list cs (VStr ''--no-default-browser-check'')) \<and>
           count_list ignored (VStr ''--enable-automation'') =
             Suc (count_list old (VStr ''--enable-automation''))"
proof -
  let ?P = "\<lambda>t. \<exists>lo hp rest.
           calls t = calls s @ Require (resolve h config) # Launch lo hp # rest \<and>
           prop_list hp lo ''args'' =
             Some (VStr ''--disable-infobars'' # cs @
                  (if truthy am then [VStr (''--app='' @ pageUrl)] else []) @
                  [VStr ''--no-default-browser-check'']) \<and>
           prop_list hp lo ''ignoreDefaultArgs'' = Some (old @ [VStr ''--enable-automation''])"
  have ign: "truthy (VBool True) \<longrightarrow> ignore_list (heap s) ch = Some old"
    using ch(3) by simp
  have "wp (openBrowser h ident pageUrl config) (\<lambda>_. ?P) (\<lambda>_. ?P) s"
  proof (rule openBrowser_wp [OF launchBrowser_config [OF u m ch(1,2) am dib ign, of pageUrl]],
      goal_cases)
    case (1 b lo am' hv t)
    show ?case
      by (rule wp_mono [OF preparePage_calls]) (use 1 in auto)
  next
    case (2 e t)
    then show ?case
      by auto
  qed
  then have "?P (snd (openBrowser h ident pageUrl config s))"
    by (rule wp_state)
  then show ?thesis
    by auto
qed

text \<open>
  A config that gives no \<open>args\<close> and no \<open>ignoreDefaultArgs\<close>: each entry is there
  exactly once.
\<close>

theorem openBrowser_disableInfoBars_witness:
  "\<exists>lo hp rest args ignored.
     calls (snd (openBrowser (example_host (config_modules (VRef 2)) [] []) ''1''
                   ''http://localhost:1337/'' ''config.js'' (fresh_provider plain_heap))) =
       calls (fresh_provider plain_heap) @ Require ''/cwd/config.js'' # Launch lo hp # rest \<and>
     prop_list hp lo ''args'' = Some args \<and>
     prop_list hp lo ''ignoreDefaultArgs'' = Some ignored \<and>
     args = [VStr ''--disable-infobars'', VStr ''--no-default-browser-check''] \<and>
     ignored = [VStr ''--enable-automation''] \<and>
     count_list args (VStr ''--no-default-browser-check'') = 1 \<and>
     count_list ignored (VStr ''--enable-automation'') = 1"
  using openBrowser_disableInfoBars [where s = "fresh_provider plain_heap" and ident = "''1''"
      and config = "''config.js''" and h = "example_host (config_modules (VRef 2)) [] []"
      and m = "VRef 2" and bc = "VRef 1" and ch = "VRef 0" and cs = "[]" and old = "[]"
      and am = VUndefined and pageUrl = "''http://localhost:1337/''"]
  by (simp add: example_defs config_modules_def plain_heap_def cell_at_def or_undefined_def
      config_args_def ignore_list_def)

text \<open>
  Where claim C2 fails. First, session \<open>"1"\<close> has a browser: the config is not read,
  nothing is launched and nothing is appended. Second, the config's own \<open>args\<close> hold
  \<open>--no-default-browser-check\<close>: the launch \<open>args\<close> hold it twice.
\<close>

theorem openBrowser_disableInfoBars_counterexample:
  "calls (snd (openBrowser (example_host (config_modules (VRef 2)) [] []) ''1''
                 ''http://localhost:1337/'' ''config.js'' (open_session\<lparr>heap := plain_heap\<rparr>))) =
     [BrowserPages 7, Goto 3 ''http://localhost:1337/'', WaitForConnectionReady ''1'',
      Maximize ''1'', RunInitScript ''1''] \<and>
   (\<exists>lo hp rest.
     calls (snd (openBrowser (example_host (config_modules (VRef 3)) [] []) ''1''
                   ''http://localhost:1337/'' ''config.js'' (fresh_provider dup_heap))) =
       Require ''/cwd/config.js'' # Launch lo hp # rest \<and>
     prop_list hp lo ''args'' =
       Some [VStr ''--disable-infobars'', VStr ''--no-default-browser-check'',
             VStr ''--no-default-browser-check''])"
  by (simp add: run_defs plain_heap_def dup_heap_def)

text \<open>
  The \<open>ignoreDefaultArgs\<close> array of the merged options is the config's own array, not a
  copy (the \<open>args\<close> are copied), and \<open>require\<close> returns the same config on every call.
  So with \<open>{chromium: {ignoreDefaultArgs: []}, disableInfoBars: true}\<close>, the second
  session is launched with \<open>--enable-automation\<close> twice in its \<open>ignoreDefaultArgs\<close>.
\<close>

lemma openBrowser_twice_ignoreDefaultArgs:
  "\<exists>lo1 hp1 rest1 lo2 hp2 rest2 s1.
     openBrowser (example_host (config_modules (VRef 3)) [] []) ''1''
        ''http://localhost:1337/'' ''config.js'' (fresh_provider ignore_heap) = (Inr (), s1) \<and>
     calls s1 = Require ''/cwd/config.js'' # Launch lo1 hp1 # rest1 \<and>
     prop_list hp1 lo1 ''ignoreDefaultArgs'' = Some [VStr ''--enable-automation''] \<and>
     calls (snd (openBrowser (example_host (config_modules (VRef 3)) [] []) ''2''
                   ''http://localhost:1337/'' ''config.js'' (s1\<lparr>calls := []\<rparr>))) =
       Require ''/cwd/config.js'' # Launch lo2 hp2 # rest2 \<and>
     prop_list hp2 lo2 ''ignoreDefaultArgs'' =
       Some [VStr ''--enable-automation'', VStr ''--enable-automation'']"
  by (simp add: run_defs ignore_heap_def)

section \<open>App mode\<close>

text \<open>
  Claim C6. Let no browser be tracked for the id and the config of the call have
  \<open>appMode: true\<close>. Then \<open>openBrowser\<close> issues no navigation, whatever the collaborators
  answer and whether or not the rest of the config can be read. And when the chromium
  options can be merged (their \<open>args\<close> contribute the list \<open>cs\<close>; with a truthy
  \<open>disableInfoBars\<close>, the \<open>ignoreDefaultArgs\<close> is a list), the browser is launched with
  the \<open>args\<close> \<open>--disable-infobars\<close>, \<open>cs\<close>, then \<open>--app=\<close> followed by the url (then
  \<open>--no-default-browser-check\<close> with \<open>disableInfoBars\<close>), and with \<open>headless\<close> false.
\<close>

theorem openBrowser_appMode:
  assumes u: "browsers s ident = None" "config \<noteq> []"
    and m: "require_r h (resolve h config) = Inr m" "get_prop (heap s) m ''config'' = Inr bc"
    and am: "get_prop (heap s) bc ''appMode'' = Inr (VBool True)"
  shows "(\<exists>cs. calls (snd (openBrowser h ident pageUrl config s)) = calls s @ cs \<and>
            (\<forall>p u. Goto p u \<notin> set cs)) \<and>
         (\<forall>ch cs dib old.
            get_prop (heap s) bc ''chromium'' = Inr ch \<longrightarrow>
            config_args (heap s) ch = Inr cs \<longrightarrow>
            get_prop (heap s) bc ''disableInfoBars'' = Inr dib \<longrightarrow>
            (truthy dib \<longrightarrow> ignore_list (heap s) ch = Some old) \<longrightarrow>
            (\<exists>lo hp rest.
               calls (snd (openBrowser h ident pageUrl config s)) =
                 calls s @ Require (resolve h config) # Launch lo hp # rest \<and>
               prop_list hp lo ''args'' =
                 Some (VStr ''--disable-infobars'' # cs @ VStr (''--app='' @ pageUrl) #
                       (if truthy dib then [VStr ''--no-default-browser-check''] else [])) \<and>
               get_prop hp lo ''headless'' = Inr (VBool False)))"
proof (intro conjI allI impI)
  let ?P = "\<lambda>t. \<exists>cs. calls t = calls s @ cs \<and> (\<forall>p u. Goto p u \<notin> set cs)"
  have "wp (openBrowser h ident pageUrl config) (\<lambda>_. ?P) (\<lambda>_. ?P) s"
  proof (rule openBrowser_wp [OF launchBrowser_appMode [OF u m am, of pageUrl]], goal_cases)
    case (1 b lo am' hv t)
    show ?case
      by (rule wp_mono [OF preparePage_calls]) (use 1 in auto)
  next
    case (2 e t)
    then show ?case
      by auto
  qed
  then show "?P (snd (openBrowser h ident pageUrl config s))"
    by (rule wp_state)
next
  fix ch cs dib old
  assume ch: "get_prop (heap s) bc ''chromium'' = Inr ch" "config_args (heap s) ch = Inr cs"
    and dib: "get_prop (heap s) bc ''disableInfoBars'' = Inr dib"
    and ign: "truthy dib \<longrightarrow> ignore_list (heap s) ch = Some old"
  let ?P = "\<lambda>t. \<exists>lo hp rest.
               calls t = calls s @ Require (resolve h config) # Launch lo hp # rest \<and>
               prop_list hp lo ''args'' =
                 Some (VStr ''--disable-infobars'' # cs @ VStr (''--app='' @ pageUrl) #
                       (if truthy dib then [VStr ''--no-default-browser-check''] else [])) \<and>
               get_prop hp lo ''headless'' = Inr (VBool False)"
  have "wp (openBrowser h ident pageUrl config) (\<lambda>_. ?P) (\<lambda>_. ?P) s"
  proof (rule openBrowser_wp [OF launchBrowser_config [OF u m ch am dib ign, of pageUrl]],
      goal_cases)
    case (1 b lo am' hv t)
    show ?case
      by (rule wp_mono [OF preparePage_calls]) (use 1 in auto)
  next
    case (2 e t)
    then show ?case
      by auto
  qed
  then show "?P (snd (openBrowser h ident pageUrl config s))"
    by (rule wp_state)
qed

theorem openBrowser_appMode_witness:
  "(\<exists>cs. calls (snd (openBrowser (example_host (config_modules (VRef 2)) [] []) ''1''
                      ''http://localhost:1337/'' ''config.js'' (fresh_provider app_heap))) =
            calls (fresh_provider app_heap) @ cs \<and>
          (\<forall>p u. Goto p u \<notin> set cs)) \<and>
   (\<exists>lo hp rest.
      calls (snd (openBrowser (example_host (config_modules (VRef 2)) [] []) ''1''
                    ''http://localhost:1337/'' ''config.js'' (fresh_provider app_heap))) =
        calls (fresh_provider app_heap) @ Require ''/cwd/config.js'' # Launch lo hp # rest \<and>
      prop_list hp lo ''args'' =
        Some [VStr ''--disable-infobars'', VStr ''--app=http://localhost:1337/''] \<and>
      get_prop hp lo ''headless'' = Inr (VBool False))"
proof -
  note t = openBrowser_appMode [where s = "fresh_provider app_heap" and ident = "''1''"
      and config = "''config.js''" and h = "example_host (config_modules (VRef 2)) [] []"
      and m = "VRef 2" and bc = "VRef 1" and pageUrl = "''http://localhost:1337/''"]
  have a: "browsers (fresh_provider app_heap) ''1'' = None" "''config.js'' \<noteq> []"
    "require_r (example_host (config_modules (VRef 2)) [] [])
       (resolve (example_host (config_modules (VRef 2)) [] []) ''config.js'') = Inr (VRef 2)"
    "get_prop (heap (fresh_provider app_heap)) (VRef 2) ''config'' = Inr (VRef 1)"
    "get_prop (heap (fresh_provider app_heap)) (VRef 1) ''appMode'' = Inr (VBool True)"
    by (simp_all add: example_defs config_modules_def app_heap_def cell_at_def or_undefined_def)
  from t [OF a, THEN conjunct2, rule_format, of "VRef 0" "[]" VUndefined "[]"]
  have "\<exists>lo hp rest.
      calls (snd (openBrowser (example_host (config_modules (VRef 2)) [] []) ''1''
                    ''http://localhost:1337/'' ''config.js'' (fresh_provider app_heap))) =
        calls (fresh_provider app_heap) @ Require ''/cwd/config.js'' # Launch lo hp # rest \<and>
      prop_list hp lo ''args'' =
        Some [VStr ''--disable-infobars'', VStr ''--app=http://localhost:1337/''] \<and>
      get_prop hp lo ''headless'' = Inr (VBool False)"
    by (simp add: example_defs config_modules_def app_heap_def cell_at_def or_undefined_def
        config_args_def)
  with t [OF a, THEN conjunct1] show ?thesis
    by blast
qed

section \<open>The session operations\<close>

text \<open>
  Claim C4. For a session whose recorded screen size is \<open>sz\<close>,
  \<open>canResizeWindowToDimensions\<close> returns true exactly when the requested width is at
  most the screen's width and the requested height at most the screen's height; it
  changes nothing.
\<close>

theorem canResizeWindowToDimensions_iff:
  assumes "screenSizes s ident = Some sz"
  shows "canResizeWindowToDimensions ident w ht s = (Inr (w \<le> width sz \<and> ht \<le> height sz), s)"
  using assms by (simp add: canResizeWindowToDimensions_def bnd_def gets_def ret_def)

theorem canResizeWindowToDimensions_iff_witness:
  "canResizeWindowToDimensions ''1'' 1920 1080 open_session = (Inr True, open_session) \<and>
   canResizeWindowToDimensions ''1'' 1921 1080 open_session = (Inr False, open_session) \<and>
   canResizeWindowToDimensions ''1'' 800 1081 open_session = (Inr False, open_session)"
  using canResizeWindowToDimensions_iff [of open_session "''1''" "\<lparr>width = 1920, height = 1080\<rparr>" 1920 1080]
    canResizeWindowToDimensions_iff [of open_session "''1''" "\<lparr>width = 1920, height = 1080\<rparr>" 1921 1080]
    canResizeWindowToDimensions_iff [of open_session "''1''" "\<lparr>width = 1920, height = 1080\<rparr>" 800 1081]
  by (simp add: open_session_def)

text \<open>
  Claim C3 fails on the code: \<open>closeBrowser\<close> deletes the session's entries of \<open>har\<close>,
  \<open>pages\<close> and \<open>browsers\<close>, and leaves its entry of \<open>screenSizes\<close>. A session opened
  without a config and then closed: both calls return, the three entries are gone, the
  screen size is still recorded, and \<open>canResizeWindowToDimensions\<close> still answers for the
  closed session.
\<close>

theorem closeBrowser_keeps_screenSize:
  "(case openBrowser (example_host no_modules [] []) ''1'' ''http://localhost:1337/'' []
           (fresh_provider []) of
      (r1, s1) \<Rightarrow>
        r1 = Inr () \<and> screenSizes s1 ''1'' = Some \<lparr>width = 1920, height = 1080\<rparr> \<and>
        (case closeBrowser (example_host no_modules [] []) ''1'' s1 of
           (r2, s2) \<Rightarrow>
             r2 = Inr () \<and> browsers s2 ''1'' = None \<and> pages s2 ''1'' = None \<and>
             har s2 ''1'' = None \<and>
             screenSizes s2 ''1'' = Some \<lparr>width = 1920, height = 1080\<rparr> \<and>
             fst (canResizeWindowToDimensions ''1'' 800 600 s2) = Inr True))"
  by (simp add: run_defs canResizeWindowToDimensions_def)

text \<open>No call of \<open>closeBrowser\<close> changes the \<open>screenSizes\<close> map.\<close>

lemma closeBrowser_screenSizes:
  "screenSizes (snd (closeBrowser h ident s)) = screenSizes s"
proof -
  have "wp (closeBrowser h ident) (\<lambda>_ t. screenSizes t = screenSizes s)
          (\<lambda>_ t. screenSizes t = screenSizes s) s"
    unfolding closeBrowser_def method_defs
    by (intro wp_intro) simp_all
  then show ?thesis
    by (rule wp_state)
qed

text \<open>
  Claim C8. When \<open>closeBrowser(id)\<close> has returned, the maps \<open>browsers\<close>, \<open>pages\<close> and
  \<open>har\<close> have no entry for \<open>id\<close>. (The \<open>har\<close> map holds truthy values only, see
  \<open>openBrowser_har_truthy\<close> below; \<open>closeBrowser\<close> deletes the entry it finds truthy.)
\<close>

theorem closeBrowser_removes_handles:
  assumes "closeBrowser h ident s = (Inr u, s')" and "har_truthy s"
  shows "browsers s' ident = None \<and> pages s' ident = None \<and> har s' ident = None"
proof -
  have "wp (closeBrowser h ident)
          (\<lambda>r t. browsers t ident = None \<and> pages t ident = None \<and> har t ident = None)
          (\<lambda>e t. True) s"
    using assms(2) unfolding closeBrowser_def method_defs
    by (intro wp_intro) (simp_all add: har_truthy_def or_undefined_def split: option.splits)
  from wp_returns [OF assms(1) this] show ?thesis .
qed

lemma close_open_session:
  "closeBrowser (example_host no_modules log tpl) ''1'' open_session =
     (Inr (), open_session\<lparr>browsers := Map.empty, pages := Map.empty,
                           calls := [PageClose 3, BrowserClose 7]\<rparr>)"
  by (simp add: closeBrowser_def method_defs js_defs example_defs or_undefined_def)

theorem closeBrowser_removes_handles_witness:
  "har_truthy open_session \<and>
   browsers (snd (closeBrowser (example_host no_modules [] []) ''1'' open_session)) ''1'' = None \<and>
   pages (snd (closeBrowser (example_host no_modules [] []) ''1'' open_session)) ''1'' = None \<and>
   har (snd (closeBrowser (example_host no_modules [] []) ''1'' open_session)) ''1'' = None"
  using closeBrowser_removes_handles [of "example_host no_modules [] []" "''1''" open_session "()"
      "snd (closeBrowser (example_host no_modules [] []) ''1'' open_session)"]
  by (simp add: close_open_session har_truthy_def) (simp add: open_session_def)

text \<open>
  The \<open>har\<close> map holds truthy values only: it is empty at first, \<open>openBrowser\<close> stores
  a value it found truthy, and \<open>closeBrowser\<close> only deletes.
\<close>

lemma fresh_provider_har_truthy: "har_truthy (fresh_provider hp)"
  by (simp add: har_truthy_def fresh_provider_def)

lemma launchBrowser_har:
  "wp (launchBrowser h ident pageUrl config)
     (\<lambda>(b, lo, am, hv) t. har t = har s) (\<lambda>e t. har t = har s) s"
  unfolding launchBrowser_def readConfig_def defaultLaunchOptions_def
  by (intro wp_intro) auto

lemma preparePage_har_truthy:
  assumes "har_truthy s"
  shows "wp (preparePage h ident pageUrl browser launchOptions appMode hv)
     (\<lambda>_. har_truthy) (\<lambda>_. har_truthy) s"
  unfolding preparePage_def method_defs
  apply (intro wp_intro)
  using assms
                      apply (auto simp add: har_truthy_def)
  done

lemma openBrowser_har_truthy:
  assumes "har_truthy s"
  shows "har_truthy (snd (openBrowser h ident pageUrl config s))"
proof -
  have "wp (openBrowser h ident pageUrl config) (\<lambda>_. har_truthy) (\<lambda>_. har_truthy) s"
  proof (rule openBrowser_wp [OF launchBrowser_har], goal_cases)
    case (1 b lo am hv t)
    with assms have "har_truthy t" by (simp add: har_truthy_def)
    then show ?case by (rule preparePage_har_truthy)
  next
    case (2 e t)
    with assms show ?case by (simp add: har_truthy_def)
  qed
  then show ?thesis by (rule wp_state)
qed

lemma closeBrowser_har_truthy:
  assumes "har_truthy s"
  shows "har_truthy (snd (closeBrowser h ident s))"
proof -
  have "wp (closeBrowser h ident) (\<lambda>_. har_truthy) (\<lambda>_. har_truthy) s"
    unfolding closeBrowser_def method_defs
    apply (intro wp_intro)
    using assms
                        apply (auto simp add: har_truthy_def split: if_splits)
    done
  then show ?thesis by (rule wp_state)
qed

section \<open>The HAR files\<close>

text \<open>
  What \<open>closeBrowser\<close> writes for a session with a HAR configuration, when the
  collaborators do not throw: the recorder is stopped first; the log goes to the \<open>file\<close>
  path if one is configured; the result of \<open>template.replace('{harLogData}', log)\<close>
  goes to the \<open>html\<close> path if one is configured; nothing else is written, and the HAR
  entry of the session is deleted.
\<close>

lemma closeBrowser_writes_har:
  assumes hv: "har s ident = Some hv" "truthy hv"
    and prov: "get_prop (heap s) hv ''provider'' = Inr (VRecorder p)"
    and fl: "get_prop (heap s) hv ''file'' = Inr (path_value fo)" "fo \<noteq> Some []"
    and ht: "get_prop (heap s) hv ''html'' = Inr (path_value go)" "go \<noteq> Some []"
    and quiet: "\<forall>cs. void_r h cs = None"
      "\<forall>cs. last cs = HarStop p \<longrightarrow> text_r h cs = Inr log"
      "\<forall>cs. last cs = ReadFile (template_path h) \<longrightarrow> text_r h cs = Inr template"
  shows "\<exists>new. calls (snd (closeBrowser h ident s)) = calls s @ HarStop p # new \<and>
           written new =
             (case fo of None \<Rightarrow> [] | Some f \<Rightarrow> [(resolve h f, log)]) @
             (case go of None \<Rightarrow> []
              | Some g \<Rightarrow> [(resolve h g, js_replace template ''{harLogData}'' log)]) \<and>
           har (snd (closeBrowser h ident s)) ident = None"
proof -
  let ?P = "\<lambda>t. \<exists>new. calls t = calls s @ HarStop p # new \<and>
           written new =
             (case fo of None \<Rightarrow> [] | Some f \<Rightarrow> [(resolve h f, log)]) @
             (case go of None \<Rightarrow> []
              | Some g \<Rightarrow> [(resolve h g, js_replace template ''{harLogData}'' log)]) \<and>
           har t ident = None"
  have "wp (closeBrowser h ident) (\<lambda>_. ?P) (\<lambda>_. ?P) s"
    unfolding closeBrowser_def method_defs
    apply (intro wp_intro)
    using assms
                        apply (auto simp add: or_undefined_def path_value_def written_def
        split: option.splits)
    done
  then show ?thesis
    by (rule wp_state)
qed

text \<open>
  Without a dollar sign in the replacement, \<open>replace\<close> puts the replacement itself in
  the place of the first occurrence of the pattern.
\<close>

lemma substitution_plain: "CHR ''$'' \<notin> set r \<Longrightarrow> substitution m pre post r = r"
  by (induction m pre post r rule: substitution.induct) auto

lemma find_first_split: "find_first pat str = Some (pre, post) \<Longrightarrow> str = pre @ pat @ post"
proof (induction str arbitrary: pre)
  case Nil
  then show ?case
    by (simp split: if_splits)
next
  case (Cons c cs)
  show ?case
  proof (cases "take (length pat) (c # cs) = pat")
    case True
    with Cons.prems have "pre = []" "post = drop (length pat) (c # cs)"
      by simp_all
    with True show ?thesis
      by (metis append_Nil append_take_drop_id)
  next
    case False
    with Cons.prems obtain pre' where "find_first pat cs = Some (pre', post)" "pre = c # pre'"
      by (auto split: option.splits)
    with Cons.IH show ?thesis
      by simp
  qed
qed

lemma js_replace_plain:
  assumes "CHR ''$'' \<notin> set rep" "find_first pat str = Some (pre, post)"
  shows "js_replace str pat rep = pre @ rep @ post \<and> str = pre @ pat @ post"
  using assms by (simp add: js_replace_def substitution_plain find_first_split)

text \<open>
  Claim C5 fails on the code, in the content of the html file. With \<open>file\<close> and \<open>html\<close>
  configured, a session whose capture has a request to \<open>http://a/?q=$&lang=en\<close>: the
  log is written as it is to the file path, but in the html file the \<open>$&\<close> of the log
  has become the placeholder \<open>{harLogData}\<close>, since \<open>replace\<close> reads \<open>$&\<close> in its
  second argument as the matched text. The file is not the template with the
  placeholder substituted by the serialized log. Two files are written and the HAR
  entry is deleted, as claimed.
\<close>

theorem closeBrowser_html_report_dollar:
  \<open>(case openBrowser dollar_host ''1'' ''http://localhost:1337/'' ''config.js''
           (fresh_provider har_heap) of
      (r1, s1) \<Rightarrow>
        r1 = Inr () \<and>
        (case closeBrowser dollar_host ''1'' s1 of
           (r2, s2) \<Rightarrow>
             r2 = Inr () \<and> har s2 ''1'' = None \<and>
             written (calls s2) =
               [(''/cwd/out.har'', ''{"url":"http://a/?q=$&lang=en"}''),
                (''/cwd/out.html'',
                 ''<script>var har = {"url":"http://a/?q={harLogData}lang=en"};</script>'')]))\<close>
  by (simp add: run_defs dollar_host_def har_heap_def written_def js_replace_def)

section \<open>Operations on a session that is not open\<close>

text \<open>
  Claim C9. On a session id that none of the four maps knows, every session operation
  throws: \<open>closeBrowser\<close> and \<open>resizeWindow\<close> a TypeError on \<open>this.pages[id]\<close>, before any
  call is issued; \<open>canResizeWindowToDimensions\<close> a TypeError on the destructuring of
  \<open>this.screenSizes[id]\<close>; \<open>takeScreenshot\<close> the error of \<open>mkdirSync\<close> or else the
  TypeError on \<open>this.pages[id]\<close>; \<open>hoverElement\<close>, when the test run in context is that
  of the session, a TypeError on \<open>this.pages[id]\<close>. None returns a value.
\<close>

theorem missing_session_fails:
  assumes "browsers s ident = None" "pages s ident = None" "har s ident = None"
    "screenSizes s ident = None"
  shows "closeBrowser h ident s = (Inl (TypeError ''Cannot read properties of undefined''), s) \<and>
         resizeWindow h ident w ht s = (Inl (TypeError ''Cannot read properties of undefined''), s) \<and>
         canResizeWindowToDimensions ident w ht s =
           (Inl (TypeError ''Cannot destructure property width of undefined''), s) \<and>
         fst (takeScreenshot h ident path pw ph full s) =
           Inl (case void_r h (calls s @ [Mkdir (dirname h path)]) of
                  Some e \<Rightarrow> e
                | None \<Rightarrow> TypeError ''Cannot read properties of undefined'') \<and>
         (text_r h (calls s @ [ResolveContextTestRun]) = Inr ident \<longrightarrow>
          fst (hoverElement h selector s) = Inl (TypeError ''Cannot read properties of undefined''))"
  using assms
  by (simp add: closeBrowser_def resizeWindow_def canResizeWindowToDimensions_def
      takeScreenshot_def hoverElement_def method_defs js_defs or_undefined_def split: option.splits)

theorem missing_session_fails_witness:
  "closeBrowser (example_host no_modules [] []) ''1'' (fresh_provider []) =
     (Inl (TypeError ''Cannot read properties of undefined''), fresh_provider []) \<and>
   resizeWindow (example_host no_modules [] []) ''1'' 800 600 (fresh_provider []) =
     (Inl (TypeError ''Cannot read properties of undefined''), fresh_provider []) \<and>
   canResizeWindowToDimensions ''1'' 800 600 (fresh_provider []) =
     (Inl (TypeError ''Cannot destructure property width of undefined''), fresh_provider []) \<and>
   fst (takeScreenshot (example_host no_modules [] []) ''1'' ''shots/1.png'' 800 600 False
          (fresh_provider [])) =
     Inl (TypeError ''Cannot read properties of undefined'') \<and>
   fst (hoverElement (example_host no_modules [] []) ''#menu'' (fresh_provider [])) =
     Inl (TypeError ''Cannot read properties of undefined'')"
  using missing_session_fails [of "fresh_provider []" "''1''" "example_host no_modules [] []"
      800 600 "''shots/1.png''" 800 600 False "''#menu''"]
  by (simp add: example_defs)

section \<open>Errors of openBrowser\<close>

subsection \<open>Closed heaps\<close>

lemma index_props_mem: "index_props xs k = Some x \<Longrightarrow> x \<in> set xs"
  by (auto simp: index_props_def dest!: map_of_SomeD set_zip_rightD)

lemma get_prop_closed:
  assumes "closed_heap hp" "get_prop hp v k = Inr x"
  shows "valid hp x"
proof (cases v)
  case (VRef a)
  with assms(2) obtain c where c: "cell_at hp a = Some c"
    by (auto split: option.splits)
  then have mem: "c \<in> set hp"
    by (auto simp: cell_at_def split: if_splits)
  show ?thesis
  proof (cases "elems c")
    case None
    with assms(2) VRef c have "x = or_undefined (props c k)" by simp
    with assms(1) mem show ?thesis
      by (auto simp: closed_heap_def or_undefined_def valid_def split: option.splits)
  next
    case (Some xs)
    with assms(2) VRef c have "x = VNum (int (length xs)) \<or> x = or_undefined ((index_props xs ++ props c) k)"
      by (auto split: if_splits)
    with assms(1) mem Some show ?thesis
      by (auto simp: closed_heap_def or_undefined_def valid_def map_add_def
          split: option.splits dest!: index_props_mem)
  qed
next
  case (VStr s)
  with assms(2) show ?thesis
    by (auto simp: valid_def or_undefined_def chars_def split: if_splits option.splits
        dest!: index_props_mem)
qed (use assms(2) in \<open>auto simp: valid_def\<close>)

lemma combine_fails:
  assumes d: "cell_at hp d = Some (Cell None dps)" "dps ''args'' = Some (VRef da)"
    "cell_at hp da = Some (Cell (Some ds) daps)"
    and c: "config_args hp c = Inl e" "valid hp c"
    and a: "\<And>a. get_prop hp c ''args'' = Inr a \<Longrightarrow> valid hp a"
  shows "combineLaunchOptions hp (VRef d) c = Inl e"
proof -
  have less: "d < length hp" "da < length hp"
    using d by (auto dest: cell_at_Some_less)
  show ?thesis
  proof (cases "get_prop hp c ''args''")
    case (Inl e')
    with c show ?thesis
      by (simp add: combineLaunchOptions_def alloc_def config_args_def get_prop_append)
  next
    case (Inr a')
    with c have it: "\<not> nullish a'" "iterate hp a' = Inl e"
      by (auto simp: config_args_def split: if_splits)
    from a [OF Inr] have "valid hp a'" .
    with it Inr c(2) d less show ?thesis
      by (simp add: combineLaunchOptions_def alloc_def new_object_def
          get_prop_append iterate_append heap_simps or_undefined_def)
  qed
qed

subsection \<open>A configuration that cannot be read\<close>

lemma closed_heap_append:
  assumes "closed_heap hp"
    and "\<forall>c\<in>set cs. (\<forall>k v. props c k = Some v \<longrightarrow> valid (hp @ cs) v) \<and>
                 (\<forall>xs. elems c = Some xs \<longrightarrow> (\<forall>v\<in>set xs. valid (hp @ cs) v))"
  shows "closed_heap (hp @ cs)"
  using assms by (auto simp: closed_heap_def dest: valid_append) (meson valid_append)+

lemma config_args_fails_append:
  assumes "config_args hp c = Inl e" "valid hp c" "closed_heap hp"
  shows "config_args (hp @ xs) c = Inl e"
proof (cases "get_prop hp c ''args''")
  case (Inl e')
  with assms show ?thesis by (simp add: config_args_def get_prop_append)
next
  case (Inr a)
  with assms(3) have "valid hp a" by (auto dest: get_prop_closed)
  with Inr assms show ?thesis
    by (auto simp add: config_args_def get_prop_append iterate_append split: if_splits)
qed

lemma config_failure_append:
  assumes "config_failure h hp config = Some e" "closed_heap hp"
    and "\<forall>m. require_r h (resolve h config) = Inr m \<longrightarrow> valid hp m"
  shows "config_failure h (hp @ xs) config = Some e"
proof (cases "require_r h (resolve h config)")
  case (Inl e')
  with assms(1) show ?thesis by (simp add: config_failure_def)
next
  case m: (Inr m)
  with assms(3) have vm: "valid hp m" by simp
  show ?thesis
  proof (cases "get_prop hp m ''config''")
    case (Inl e')
    with assms(1) m vm show ?thesis by (simp add: config_failure_def get_prop_append)
  next
    case bc: (Inr bc)
    with assms(2) have vbc: "valid hp bc" by (auto dest: get_prop_closed)
    show ?thesis
    proof (cases "get_prop hp bc ''chromium''")
      case (Inl e')
      with assms(1) m vm bc vbc show ?thesis by (simp add: config_failure_def get_prop_append)
    next
      case ch: (Inr ch)
      with assms(2) have vch: "valid hp ch" by (auto dest: get_prop_closed)
      from assms(1) m bc ch have "config_args hp ch = Inl e"
        by (auto simp: config_failure_def split: sum.splits)
      then have "config_args (hp @ xs) ch = Inl e"
        using vch assms(2) by (rule config_args_fails_append)
      with m vm bc vbc ch show ?thesis by (simp add: config_failure_def get_prop_append)
    qed
  qed
qed

lemma readConfig_fails:
  assumes cf: "config_failure h (heap s) config = Some e" "config \<noteq> []"
    and cl: "closed_heap (heap s)"
    and d: "cell_at (heap s) d = Some (Cell None dps)" "dps ''args'' = Some (VRef da)"
      "cell_at (heap s) da = Some (Cell (Some ds) daps)"
  shows "readConfig h pageUrl config (VRef d) s =
           (Inl e, s\<lparr>calls := calls s @ [Require (resolve h config)]\<rparr>)"
proof (cases "require_r h (resolve h config)")
  case (Inl e')
  with cf show ?thesis
    by (simp add: config_failure_def readConfig_def js_defs)
next
  case m: (Inr m)
  show ?thesis
  proof (cases "get_prop (heap s) m ''config''")
    case (Inl e')
    with cf m show ?thesis
      by (simp add: config_failure_def readConfig_def js_defs)
  next
    case bc: (Inr bc)
    show ?thesis
    proof (cases "get_prop (heap s) bc ''chromium''")
      case (Inl e')
      with cf m bc show ?thesis
        by (simp add: config_failure_def readConfig_def js_defs)
    next
      case ch: (Inr ch)
      with cl have vch: "valid (heap s) ch" by (auto dest: get_prop_closed)
      from cf m bc ch have ca: "config_args (heap s) ch = Inl e"
        by (auto simp: config_failure_def split: sum.splits)
      have "combineLaunchOptions (heap s) (VRef d) ch = Inl e"
        using d ca vch by (rule combine_fails) (use cl in \<open>auto dest: get_prop_closed\<close>)
      with cf m bc ch show ?thesis
        by (simp add: config_failure_def readConfig_def js_defs)
    qed
  qed
qed

lemma launchBrowser_fails:
  assumes u: "browsers s ident = None" "config \<noteq> []"
    and cl: "closed_heap (heap s)"
    and vm: "\<forall>m. require_r h (resolve h config) = Inr m \<longrightarrow> valid (heap s) m"
    and cf: "config_failure h (heap s) config = Some e"
  shows "\<exists>hp. launchBrowser h ident pageUrl config s =
           (Inl (config_error e), s\<lparr>heap := hp, calls := calls s @ [Require (resolve h config)]\<rparr>)"
proof -
  let ?n = "length (heap s)"
  define dps where "dps = [''args'' \<mapsto> VRef ?n, ''defaultViewport'' \<mapsto> VNull,
    ''headless'' \<mapsto> VBool False, ''ignoreDefaultArgs'' \<mapsto> VRef (Suc ?n), ''timeout'' \<mapsto> VNum 30000]"
  define new where "new = [Cell (Some [VStr ''--disable-infobars'']) Map.empty,
    Cell (Some []) Map.empty, Cell None dps, Cell None Map.empty]"
  define s1 where "s1 = s\<lparr>heap := heap s @ new\<rparr>"
  have cl1: "closed_heap (heap s1)"
    unfolding s1_def using cl
    by (auto intro!: closed_heap_append simp: new_def dps_def valid_def split: if_splits)
  have cf1: "config_failure h (heap s1) config = Some e"
    unfolding s1_def using cf cl vm by (simp add: config_failure_append)
  have "readConfig h pageUrl config (VRef (Suc (Suc ?n))) s1 =
           (Inl e, s1\<lparr>calls := calls s1 @ [Require (resolve h config)]\<rparr>)"
    using cf1 u(2) cl1
    by (rule readConfig_fails [where dps = dps and da = ?n and daps = Map.empty])
      (simp_all add: s1_def new_def dps_def heap_simps)
  with u show ?thesis
    by (auto simp add: launchBrowser_def defaultLaunchOptions_def js_defs alloc_def
        new_array_def new_object_def s1_def new_def dps_def split: prod.splits sum.splits)
qed

subsection \<open>Errors of the calls\<close>

lemma quiet_append: "quiet h base (xs @ ys) = (quiet h base xs \<and> quiet h (base @ xs) ys)"
  by (induction xs arbitrary: base) simp_all

lemma quiet_split:
  "quiet h base new \<Longrightarrow> new = pre @ c # post \<Longrightarrow> thrown h (base @ pre @ [c]) = None"
  by (simp add: quiet_append)

lemma preparePage_propagates:
  assumes "calls s = base @ new0" "quiet h base new0"
  shows "wp (preparePage h ident pageUrl browser launchOptions appMode hv)
     (\<lambda>_ t. \<exists>new. calls t = base @ new \<and> quiet h base new)
     (\<lambda>e t. \<exists>new. calls t = base @ new \<and> propagated h base new e)
     s"
  unfolding preparePage_def method_defs
  apply (intro wp_intro)
  using assms
                      apply (auto simp add: propagated_def quiet_append thrown_def butlast_append)
  done

lemma launchBrowser_propagates:
  "wp (launchBrowser h ident pageUrl config)
     (\<lambda>(b, lo, am, hv) t. \<exists>new. calls t = calls s @ new \<and> quiet h (calls s) new)
     (\<lambda>e t. \<exists>new. calls t = calls s @ new \<and> propagated h (calls s) new e)
     s"
  unfolding launchBrowser_def readConfig_def defaultLaunchOptions_def
  apply (intro wp_intro)
                      apply (auto simp add: propagated_def thrown_def)
  done

lemma openBrowser_propagates:
  "wp (openBrowser h ident pageUrl config)
     (\<lambda>_ t. \<exists>new. calls t = calls s @ new \<and> quiet h (calls s) new)
     (\<lambda>e t. \<exists>new. calls t = calls s @ new \<and> propagated h (calls s) new e)
     s"
proof (rule openBrowser_wp [OF launchBrowser_propagates], goal_cases)
  case (1 b lo am hv t)
  then obtain new where "calls t = calls s @ new" "quiet h (calls s) new"
    by blast
  then show ?case by (rule preparePage_propagates)
next
  case (2 e t)
  then show ?case by simp
qed

lemma propagated_split:
  assumes "propagated h base new e" "new = pre @ c # post" "thrown h (base @ pre @ [c]) = Some e0"
  shows "post = [] \<and> e = (case c of Require p \<Rightarrow> config_error e0 | _ \<Rightarrow> e0)"
proof -
  have nq: "\<not> quiet h base new"
    using assms(2,3) by (auto dest: quiet_split)
  with assms(1) have b: "quiet h base (butlast new)"
    and t: "\<exists>e1. thrown h (base @ new) = Some e1 \<and>
             e = (case last new of Require p \<Rightarrow> config_error e1 | _ \<Rightarrow> e1)"
    by (auto simp: propagated_def)
  have "post = []"
  proof (rule ccontr)
    assume "post \<noteq> []"
    then have "butlast new = pre @ c # butlast post"
      using assms(2) by (simp add: butlast_append)
    from quiet_split [OF b this] assms(3) show False by simp
  qed
  with t assms(2,3) show ?thesis by auto
qed

text \<open>
  Claim C7, as the code has it. The claim fails when a browser is tracked for the id:
  the config is then not read at all, and \<open>openBrowser\<close> returns
  (\<open>openBrowser_config_error_counterexample\<close>).

  For a call with no browser tracked for the id and a truthy config path, on a closed
  heap that holds the module's exports: if reading the configuration fails with the
  error \<open>e\<close> (the module cannot be loaded, its \<open>config\<close> or the \<open>chromium\<close> options of
  that cannot be read, or the merge fails on the \<open>args\<close> of the options), then
  \<open>openBrowser\<close> throws the error with the message
  \<open>'Error reading the launch options from the config file!' + e\<close>, the only call it
  issued is the \<open>require\<close> (no browser is launched), and the four session maps are as
  they were. And whenever a call that \<open>openBrowser\<close> issues throws an error, that call
  is the last one and \<open>openBrowser\<close> throws that very error, unless the call is the
  \<open>require\<close> of the configuration, whose error is wrapped as said.
\<close>

theorem openBrowser_config_error:
  assumes "browsers s ident = None" and "config \<noteq> []"
    and "closed_heap (heap s)"
    and "\<forall>m. require_r h (resolve h config) = Inr m \<longrightarrow> valid (heap s) m"
  shows "(\<forall>e. config_failure h (heap s) config = Some e \<longrightarrow>
            fst (openBrowser h ident pageUrl config s) = Inl (config_error e) \<and>
            calls (snd (openBrowser h ident pageUrl config s)) =
              calls s @ [Require (resolve h config)] \<and>
            browsers (snd (openBrowser h ident pageUrl config s)) = browsers s \<and>
            pages (snd (openBrowser h ident pageUrl config s)) = pages s \<and>
            har (snd (openBrowser h ident pageUrl config s)) = har s \<and>
            screenSizes (snd (openBrowser h ident pageUrl config s)) = screenSizes s) \<and>
         (\<forall>pre c post e.
            calls (snd (openBrowser h ident pageUrl config s)) = calls s @ pre @ c # post \<longrightarrow>
            thrown h (calls s @ pre @ [c]) = Some e \<longrightarrow>
            post = [] \<and>
            fst (openBrowser h ident pageUrl config s) =
              Inl (case c of Require p \<Rightarrow> config_error e | _ \<Rightarrow> e))"
proof (intro conjI allI impI)
  fix e
  assume "config_failure h (heap s) config = Some e"
  with assms obtain hp where
    "launchBrowser h ident pageUrl config s =
       (Inl (config_error e), s\<lparr>heap := hp, calls := calls s @ [Require (resolve h config)]\<rparr>)"
    using launchBrowser_fails by blast
  then have ob: "openBrowser h ident pageUrl config s =
       (Inl (config_error e), s\<lparr>heap := hp, calls := calls s @ [Require (resolve h config)]\<rparr>)"
    by (simp add: openBrowser_def bnd_def)
  show "fst (openBrowser h ident pageUrl config s) = Inl (config_error e)"
    and "calls (snd (openBrowser h ident pageUrl config s)) = calls s @ [Require (resolve h config)]"
    and "browsers (snd (openBrowser h ident pageUrl config s)) = browsers s"
    and "pages (snd (openBrowser h ident pageUrl config s)) = pages s"
    and "har (snd (openBrowser h ident pageUrl config s)) = har s"
    and "screenSizes (snd (openBrowser h ident pageUrl config s)) = screenSizes s"
    by (simp_all add: ob)
next
  fix pre c post e
  assume cs: "calls (snd (openBrowser h ident pageUrl config s)) = calls s @ pre @ c # post"
    and th: "thrown h (calls s @ pre @ [c]) = Some e"
  obtain r t where rt: "openBrowser h ident pageUrl config s = (r, t)"
    by (cases "openBrowser h ident pageUrl config s")
  have p: "propagated h (calls s) (pre @ c # post) (case r of Inl e' \<Rightarrow> e' | Inr u \<Rightarrow> e) \<and>
           (\<exists>e'. r = Inl e')"
  proof (cases r)
    case (Inl e')
    with rt openBrowser_propagates [of h ident pageUrl config s] cs show ?thesis
      by (auto simp: wp_def)
  next
    case (Inr u)
    with rt openBrowser_propagates [of h ident pageUrl config s] cs
    have "quiet h (calls s) (pre @ c # post)"
      by (auto simp: wp_def)
    with th show ?thesis
      by (auto dest: quiet_split)
  qed
  then obtain e' where r: "r = Inl e'" by blast
  with p have "propagated h (calls s) (pre @ c # post) e'" by simp
  from propagated_split [OF this refl th] r rt
  show "post = []"
    and "fst (openBrowser h ident pageUrl config s) =
           Inl (case c of Require p \<Rightarrow> config_error e | _ \<Rightarrow> e)"
    by simp_all
qed

text \<open>
  The launch throws, with the configuration \<open>{config: {chromium: {},
  disableInfoBars: true}}\<close>: the calls are the \<open>require\<close> and the launch.
\<close>

lemma failing_launch_run:
  "\<exists>lo hp. calls (snd (openBrowser failing_launch ''1'' ''http://localhost:1337/'' ''config.js''
                          (fresh_provider plain_heap))) =
             [Require ''/cwd/config.js'', Launch lo hp]"
  by (simp add: run_defs failing_launch_def plain_heap_def)

text \<open>
  First, a config file that is not there: the error of \<open>require\<close> is wrapped, and
  nothing but the \<open>require\<close> has happened. Second, a launch that throws: its error is
  the error of \<open>openBrowser\<close>.
\<close>

theorem openBrowser_config_error_witness:
  "closed_heap [] \<and>
   config_failure (example_host no_modules [] []) [] ''missing.js'' =
     Some (JsError ''Error'' ''Cannot find module /cwd/missing.js'') \<and>
   fst (openBrowser (example_host no_modules [] []) ''1'' ''http://localhost:1337/''
          ''missing.js'' (fresh_provider [])) =
     Inl (JsError ''Error''
           ''Error reading the launch options from the config file!Error: Cannot find module /cwd/missing.js'') \<and>
   calls (snd (openBrowser (example_host no_modules [] []) ''1'' ''http://localhost:1337/''
                 ''missing.js'' (fresh_provider []))) = [Require ''/cwd/missing.js''] \<and>
   browsers (snd (openBrowser (example_host no_modules [] []) ''1'' ''http://localhost:1337/''
                 ''missing.js'' (fresh_provider []))) = Map.empty \<and>
   pages (snd (openBrowser (example_host no_modules [] []) ''1'' ''http://localhost:1337/''
                 ''missing.js'' (fresh_provider []))) = Map.empty \<and>
   har (snd (openBrowser (example_host no_modules [] []) ''1'' ''http://localhost:1337/''
                 ''missing.js'' (fresh_provider []))) = Map.empty \<and>
   screenSizes (snd (openBrowser (example_host no_modules [] []) ''1'' ''http://localhost:1337/''
                 ''missing.js'' (fresh_provider []))) = Map.empty \<and>
   closed_heap plain_heap \<and>
   (\<exists>lo hp.
      calls (snd (openBrowser failing_launch ''1'' ''http://localhost:1337/'' ''config.js''
                    (fresh_provider plain_heap))) =
        [Require ''/cwd/config.js'', Launch lo hp] \<and>
      thrown failing_launch [Require ''/cwd/config.js'', Launch lo hp] =
        Some (JsError ''Error'' ''Failed to launch the browser process!'')) \<and>
   fst (openBrowser failing_launch ''1'' ''http://localhost:1337/'' ''config.js''
          (fresh_provider plain_heap)) =
     Inl (JsError ''Error'' ''Failed to launch the browser process!'')"
proof -
  let ?h = "example_host no_modules [] []"
  let ?e = "JsError ''Error'' ''Cannot find module /cwd/missing.js''"
  have cl: "closed_heap (heap (fresh_provider []))"
    by (simp add: closed_heap_def fresh_provider_def)
  have cf: "config_failure ?h (heap (fresh_provider [])) ''missing.js'' = Some ?e"
    by (simp add: config_failure_def example_defs)
  have vm: "\<forall>m. require_r ?h (resolve ?h ''missing.js'') = Inr m \<longrightarrow> valid (heap (fresh_provider [])) m"
    by (simp add: example_defs)
  have a: "\<forall>e. config_failure ?h (heap (fresh_provider [])) ''missing.js'' = Some e \<longrightarrow>
            fst (openBrowser ?h ''1'' ''http://localhost:1337/'' ''missing.js'' (fresh_provider [])) =
              Inl (config_error e) \<and>
            calls (snd (openBrowser ?h ''1'' ''http://localhost:1337/'' ''missing.js'' (fresh_provider []))) =
              calls (fresh_provider []) @ [Require (resolve ?h ''missing.js'')] \<and>
            browsers (snd (openBrowser ?h ''1'' ''http://localhost:1337/'' ''missing.js'' (fresh_provider []))) =
              browsers (fresh_provider []) \<and>
            pages (snd (openBrowser ?h ''1'' ''http://localhost:1337/'' ''missing.js'' (fresh_provider []))) =
              pages (fresh_provider []) \<and>
            har (snd (openBrowser ?h ''1'' ''http://localhost:1337/'' ''missing.js'' (fresh_provider []))) =
              har (fresh_provider []) \<and>
            screenSizes (snd (openBrowser ?h ''1'' ''http://localhost:1337/'' ''missing.js'' (fresh_provider []))) =
              screenSizes (fresh_provider [])"
    using openBrowser_config_error [where s = "fresh_provider []" and ident = "''1''"
        and config = "''missing.js''" and h = ?h and pageUrl = "''http://localhost:1337/''", OF _ _ cl vm]
    by (simp add: fresh_provider_def)
  let ?g = failing_launch
  let ?s = "fresh_provider plain_heap"
  let ?R = "openBrowser ?g ''1'' ''http://localhost:1337/'' ''config.js'' ?s"
  have cl2: "closed_heap (heap ?s)"
    by (simp add: closed_heap_def fresh_provider_def plain_heap_def valid_def)
  have vm2: "\<forall>m. require_r ?g (resolve ?g ''config.js'') = Inr m \<longrightarrow> valid (heap ?s) m"
    by (simp add: failing_launch_def example_defs config_modules_def plain_heap_def valid_def)
  obtain lo hp where run: "calls (snd ?R) = [Require ''/cwd/config.js'', Launch lo hp]"
    using failing_launch_run by blast
  have th: "thrown ?g [Require ''/cwd/config.js'', Launch lo hp] =
              Some (JsError ''Error'' ''Failed to launch the browser process!'')"
    by (simp add: thrown_def failing_launch_def example_defs)
  have b: "\<forall>pre c post e.
            calls (snd ?R) = calls ?s @ pre @ c # post \<longrightarrow>
            thrown ?g (calls ?s @ pre @ [c]) = Some e \<longrightarrow>
            post = [] \<and> fst ?R = Inl (case c of Require p \<Rightarrow> config_error e | _ \<Rightarrow> e)"
    using openBrowser_config_error [where s = ?s and ident = "''1''"
        and config = "''config.js''" and h = ?g and pageUrl = "''http://localhost:1337/''", OF _ _ cl2 vm2]
    by (simp add: fresh_provider_def)
  have "fst ?R = Inl (JsError ''Error'' ''Failed to launch the browser process!'')"
    using b [rule_format, of "[Require ''/cwd/config.js'']" "Launch lo hp" "[]"] run th
    by (simp add: fresh_provider_def)
  with a [rule_format, OF cf] cl cf cl2 run th show ?thesis
    by (simp add: fresh_provider_def example_defs config_error_def toString_def)
qed

text \<open>
  Where claim C7 fails: session \<open>"1"\<close> has a browser and the config file is not there.
  \<open>openBrowser\<close> does not read the file; it returns, after the five calls on the
  tracked browser and its page.
\<close>

theorem openBrowser_config_error_counterexample:
  "require_r (example_host no_modules [] []) (resolve (example_host no_modules [] []) ''missing.js'') =
     Inl (JsError ''Error'' ''Cannot find module /cwd/missing.js'') \<and>
   openBrowser (example_host no_modules [] []) ''1'' ''http://localhost:1337/'' ''missing.js''
       open_session =
     (Inr (), open_session\<lparr>heap := heap (snd (openBrowser (example_host no_modules [] []) ''1''
                 ''http://localhost:1337/'' ''missing.js'' open_session)),
        calls := [BrowserPages 7, Goto 3 ''http://localhost:1337/'', WaitForConnectionReady ''1'',
                  Maximize ''1'', RunInitScript ''1'']\<rparr>)"
  by (simp add: run_defs)

section \<open>openBrowser on a session that already has a browser\<close>


text \<open>
  Claim C10. When a browser \<open>b\<close> is tracked for the id, \<open>openBrowser\<close> issues no launch
  and no \<open>require\<close>, whatever the collaborators answer and whatever the config is. When
  the collaborators do not throw and the browser has a first page \<open>p\<close>, the calls are:
  the pages of \<open>b\<close>, the navigation of \<open>p\<close> to the url, the wait for the connection, the
  maximizing of the window, the init script; and the entries of the id in \<open>browsers\<close>,
  \<open>pages\<close> and \<open>screenSizes\<close> are overwritten with \<open>b\<close>, \<open>p\<close> and the size the script
  returned. No HAR entry is made and no cell that existed is changed.
\<close>

theorem openBrowser_tracked:
  assumes "browsers s ident = Some b"
  shows "(\<exists>cs. calls (snd (openBrowser h ident pageUrl config s)) = calls s @ cs \<and>
            (\<forall>c\<in>set cs. (\<forall>lo hp. c \<noteq> Launch lo hp) \<and> (\<forall>p. c \<noteq> Require p))) \<and>
         (\<forall>p ps size.
            pages_r h (calls s @ [BrowserPages b]) = Inr (p # ps) \<longrightarrow>
            void_r h (calls s @ [BrowserPages b, Goto p pageUrl]) = None \<longrightarrow>
            void_r h (calls s @ [BrowserPages b, Goto p pageUrl, WaitForConnectionReady ident]) = None \<longrightarrow>
            void_r h (calls s @ [BrowserPages b, Goto p pageUrl, WaitForConnectionReady ident,
                                Maximize ident]) = None \<longrightarrow>
            screen_r h (calls s @ [BrowserPages b, Goto p pageUrl, WaitForConnectionReady ident,
                                  Maximize ident, RunInitScript ident]) = Inr size \<longrightarrow>
            (case openBrowser h ident pageUrl config s of
               (r, s') \<Rightarrow>
                 r = Inr () \<and>
                 calls s' = calls s @ [BrowserPages b, Goto p pageUrl, WaitForConnectionReady ident,
                                       Maximize ident, RunInitScript ident] \<and>
                 browsers s' = (browsers s)(ident \<mapsto> b) \<and>
                 pages s' = (pages s)(ident \<mapsto> Some p) \<and>
                 screenSizes s' = (screenSizes s)(ident \<mapsto> size) \<and>
                 har s' = har s \<and>
                 take (length (heap s)) (heap s') = heap s))"
proof (intro conjI allI impI)
  let ?P = "\<lambda>t. \<exists>cs. calls t = calls s @ cs \<and>
            (\<forall>c\<in>set cs. (\<forall>lo hp. c \<noteq> Launch lo hp) \<and> (\<forall>p. c \<noteq> Require p))"
  have "wp (openBrowser h ident pageUrl config) (\<lambda>_. ?P) (\<lambda>_. ?P) s"
    unfolding openBrowser_def launchBrowser_def defaultLaunchOptions_def
    apply (intro wp_intro)
     apply (simp_all add: assms)
    apply (rule wp_mono [OF preparePage_calls])
     apply auto
    done
  then show "?P (snd (openBrowser h ident pageUrl config s))"
    by (rule wp_state)
next
  fix p ps size
  assume "pages_r h (calls s @ [BrowserPages b]) = Inr (p # ps)"
    "void_r h (calls s @ [BrowserPages b, Goto p pageUrl]) = None"
    "void_r h (calls s @ [BrowserPages b, Goto p pageUrl, WaitForConnectionReady ident]) = None"
    "void_r h (calls s @ [BrowserPages b, Goto p pageUrl, WaitForConnectionReady ident,
                                Maximize ident]) = None"
    "screen_r h (calls s @ [BrowserPages b, Goto p pageUrl, WaitForConnectionReady ident,
                                  Maximize ident, RunInitScript ident]) = Inr size"
  then show "case openBrowser h ident pageUrl config s of
               (r, s') \<Rightarrow>
                 r = Inr () \<and>
                 calls s' = calls s @ [BrowserPages b, Goto p pageUrl, WaitForConnectionReady ident,
                                       Maximize ident, RunInitScript ident] \<and>
                 browsers s' = (browsers s)(ident \<mapsto> b) \<and>
                 pages s' = (pages s)(ident \<mapsto> Some p) \<and>
                 screenSizes s' = (screenSizes s)(ident \<mapsto> size) \<and>
                 har s' = har s \<and>
                 take (length (heap s)) (heap s') = heap s"
    using assms
    by (simp add: openBrowser_def launchBrowser_def preparePage_def defaultLaunchOptions_def
        method_defs js_defs alloc_def new_object_def new_array_def heap_simps or_undefined_def)
qed

theorem openBrowser_tracked_witness:
  "(\<exists>cs. calls (snd (openBrowser (example_host no_modules [] []) ''1'' ''http://localhost:1337/''
                      ''config.js'' open_session)) = calls open_session @ cs \<and>
         (\<forall>c\<in>set cs. (\<forall>lo hp. c \<noteq> Launch lo hp) \<and> (\<forall>p. c \<noteq> Require p))) \<and>
   (case openBrowser (example_host no_modules [] []) ''1'' ''http://localhost:1337/''
           ''config.js'' open_session of
      (r, s') \<Rightarrow>
        r = Inr () \<and>
        calls s' = [BrowserPages 7, Goto 3 ''http://localhost:1337/'', WaitForConnectionReady ''1'',
                    Maximize ''1'', RunInitScript ''1''] \<and>
        browsers s' ''1'' = Some 7 \<and> pages s' ''1'' = Some (Some 3) \<and>
        screenSizes s' ''1'' = Some \<lparr>width = 1920, height = 1080\<rparr> \<and>
        har s' = Map.empty)"
proof -
  note t = openBrowser_tracked [of open_session "''1''" 7 "example_host no_modules [] []"
      "''http://localhost:1337/''" "''config.js''"]
  have b: "browsers open_session ''1'' = Some 7"
    by (simp add: open_session_def)
  from t [OF b, THEN conjunct2, rule_format, of 3 "[]" "\<lparr>width = 1920, height = 1080\<rparr>"]
  have "case openBrowser (example_host no_modules [] []) ''1'' ''http://localhost:1337/''
           ''config.js'' open_session of
      (r, s') \<Rightarrow>
        r = Inr () \<and>
        calls s' = [BrowserPages 7, Goto 3 ''http://localhost:1337/'', WaitForConnectionReady ''1'',
                    Maximize ''1'', RunInitScript ''1''] \<and>
        browsers s' ''1'' = Some 7 \<and> pages s' ''1'' = Some (Some 3) \<and>
        screenSizes s' ''1'' = Some \<lparr>width = 1920, height = 1080\<rparr> \<and>
        har s' = Map.empty"
    by (simp add: example_defs split: prod.splits)
  with t [OF b, THEN conjunct1] show ?thesis
    by simp
qed

end
